theory Spec2Isabelle
  imports Main
begin

section \<open>JavaScript values that travel as JSON\<close>

text \<open>
  The values the client stores, sends and parses are JSON values. Numbers are
  restricted to integers, strings to code units below 256 (the range on which
  \<^verbatim>\<open>btoa\<close> is defined), and an object is the list of its properties in
  property order, with distinct keys. \<^verbatim>\<open>undefined\<close> is not a JSON value: the
  result of a property read is a \<open>json option\<close>, with \<open>None\<close> for
  \<^verbatim>\<open>undefined\<close>.
\<close>

datatype json =
    JNull
  | JBool bool
  | JNum int
  | JStr string
  | JArr "json list"
  | JObj "(string \<times> json) list"

text \<open>Truthiness, as \<^verbatim>\<open>if (v)\<close>, \<^verbatim>\<open>!v\<close> and \<^verbatim>\<open>v || w\<close> decide it.\<close>

fun truthy :: "json \<Rightarrow> bool" where
  "truthy JNull = False"
| "truthy (JBool b) = b"
| "truthy (JNum n) = (n \<noteq> 0)"
| "truthy (JStr s) = (s \<noteq> [])"
| "truthy (JArr xs) = True"
| "truthy (JObj kvs) = True"

fun truthy_opt :: "json option \<Rightarrow> bool" where
  "truthy_opt None = False"
| "truthy_opt (Some v) = truthy v"

text \<open>
  \<^verbatim>\<open>v.k\<close> for one of the property names the program reads (\<^verbatim>\<open>error\<close>,
  \<^verbatim>\<open>type\<close>, \<^verbatim>\<open>data\<close>, \<^verbatim>\<open>success\<close>, the profile fields). On an object it is
  the property or \<^verbatim>\<open>undefined\<close>; on a boolean, number, string or array none of
  these names is defined. On \<^verbatim>\<open>null\<close> the read throws a TypeError, which the
  callers below handle before they call \<open>property\<close>.
\<close>

fun property :: "json \<Rightarrow> string \<Rightarrow> json option" where
  "property (JObj kvs) k = map_of kvs k"
| "property v k = None"

text \<open>\<^verbatim>\<open>v || ''\<close>\<close>

fun or_empty :: "json option \<Rightarrow> json" where
  "or_empty None = JStr []"
| "or_empty (Some v) = (if truthy v then v else JStr [])"

subsection \<open>Printing numbers\<close>

definition digit_char :: "nat \<Rightarrow> char" where
  "digit_char d = char_of (48 + d)"

function show_nat :: "nat \<Rightarrow> string" where
  "show_nat n = (if n < 10 then [digit_char n] else show_nat (n div 10) @ [digit_char (n mod 10)])"
  by pat_completeness auto
termination
  by (relation "measure id") auto

declare show_nat.simps [simp del]

definition show_int :: "int \<Rightarrow> string" where
  "show_int i = (if i < 0 then CHR ''-'' # show_nat (nat (- i)) else show_nat (nat i))"

subsection \<open>\<^verbatim>\<open>JSON.stringify\<close>\<close>

definition hex_digit :: "nat \<Rightarrow> char" where
  "hex_digit d = (if d < 10 then char_of (48 + d) else char_of (87 + d))"

text \<open>One code unit inside a string literal, as \<^verbatim>\<open>JSON.stringify\<close> quotes it.\<close>

definition escape_char :: "char \<Rightarrow> string" where
  "escape_char c =
     (let n = (of_char c :: nat) in
      if n = 34 then [CHR 0x5C, CHR 0x22]
      else if n = 92 then [CHR 0x5C, CHR 0x5C]
      else if n = 8 then [CHR 0x5C, CHR ''b'']
      else if n = 12 then [CHR 0x5C, CHR ''f'']
      else if n = 10 then [CHR 0x5C, CHR ''n'']
      else if n = 13 then [CHR 0x5C, CHR ''r'']
      else if n = 9 then [CHR 0x5C, CHR ''t'']
      else if n < 32 then [CHR 0x5C, CHR ''u'', CHR ''0'', CHR ''0'', hex_digit (n div 16), hex_digit (n mod 16)]
      else [c])"

definition quote :: "string \<Rightarrow> string" where
  "quote s = CHR 0x22 # concat (map escape_char s) @ [CHR 0x22]"

fun commas :: "string list \<Rightarrow> string" where
  "commas [] = []"
| "commas [x] = x"
| "commas (x # y # ys) = x @ CHR '','' # commas (y # ys)"

fun JSON_stringify :: "json \<Rightarrow> string" where
  "JSON_stringify JNull = ''null''"
| "JSON_stringify (JBool b) = (if b then ''true'' else ''false'')"
| "JSON_stringify (JNum n) = show_int n"
| "JSON_stringify (JStr s) = quote s"
| "JSON_stringify (JArr xs) = CHR ''['' # commas (map JSON_stringify xs) @ '']''"
| "JSON_stringify (JObj kvs) =
     CHR ''{'' # commas (map (\<lambda>(k, v). quote k @ CHR '':'' # JSON_stringify v) kvs) @ ''}''"

section \<open>The cache store (\<^verbatim>\<open>src/utils/apiCache.ts\<close>)\<close>

subsection \<open>\<^verbatim>\<open>btoa\<close> and the cache key\<close>

definition b64_alphabet :: string where
  "b64_alphabet = ''ABCDEFGHIJKLMNOPQRSTUVWXYZabcdefghijklmnopqrstuvwxyz0123456789+/''"

definition b64 :: "nat \<Rightarrow> char" where
  "b64 n = b64_alphabet ! (n mod 64)"

text \<open>
  Base64 of a string of code units below 256, three at a time, padded with
  \<^verbatim>\<open>=\<close>. (\<^verbatim>\<open>btoa\<close> throws on a code unit above 255; \<open>char\<close> has none.)
\<close>

fun btoa :: "string \<Rightarrow> string" where
  "btoa [] = []"
| "btoa [a] =
     (let x = (of_char a :: nat)
      in [b64 (x div 4), b64 ((x mod 4) * 16), CHR ''='', CHR ''=''])"
| "btoa [a, b] =
     (let x = (of_char a :: nat); y = (of_char b :: nat)
      in [b64 (x div 4), b64 ((x mod 4) * 16 + y div 16), b64 ((y mod 16) * 4), CHR ''=''])"
| "btoa (a # b # c # rest) =
     (let x = (of_char a :: nat); y = (of_char b :: nat); z = (of_char c :: nat)
      in [b64 (x div 4), b64 ((x mod 4) * 16 + y div 16),
          b64 ((y mod 16) * 4 + z div 64), b64 (z mod 64)] @ btoa rest)"

text \<open>The characters that \<^verbatim>\<open>.replace(/[^a-zA-Z0-9]/g, '')\<close> keeps.\<close>

definition alnum :: "char \<Rightarrow> bool" where
  "alnum c =
     (let n = (of_char c :: nat)
      in (97 \<le> n \<and> n \<le> 122) \<or> (65 \<le> n \<and> n \<le> 90) \<or> (48 \<le> n \<and> n \<le> 57))"

text \<open>
  \<^verbatim>\<open>params\<close> is an object or \<^verbatim>\<open>undefined\<close>: the property list of the object,
  or \<open>None\<close>.
\<close>

type_synonym params = "(string \<times> json) list option"

definition generateKey :: "string \<Rightarrow> params \<Rightarrow> string" where
  "generateKey endpoint params =
     (let paramString = (case params of Some ps \<Rightarrow> JSON_stringify (JObj ps) | None \<Rightarrow> [])
      in ''api_cache_'' @ filter alnum (btoa (endpoint @ paramString)))"

subsection \<open>Entries and the two layers\<close>

record CacheEntry =
  data :: json
  timestamp :: int
  ttl :: int

text \<open>
  A JavaScript \<^verbatim>\<open>Map\<close> iterates its keys in the order of their first insertion:
  an association list with distinct keys, oldest first. \<^verbatim>\<open>Map.set\<close> on a key
  that is present replaces the value where it stands.
\<close>

fun map_set :: "'k \<Rightarrow> 'v \<Rightarrow> ('k \<times> 'v) list \<Rightarrow> ('k \<times> 'v) list" where
  "map_set k v [] = [(k, v)]"
| "map_set k v ((k', v') # m) = (if k' = k then (k, v) # m else (k', v') # map_set k v m)"

definition map_delete :: "'k \<Rightarrow> ('k \<times> 'v) list \<Rightarrow> ('k \<times> 'v) list" where
  "map_delete k m = filter (\<lambda>(k', v). k' \<noteq> k) m"

text \<open>
  What \<^verbatim>\<open>localStorage\<close> holds under a key of the store: the text of an entry
  written by \<^verbatim>\<open>set\<close> (\<^verbatim>\<open>JSON.parse\<close> gives the entry back), or a non-empty text
  that \<^verbatim>\<open>JSON.parse\<close> rejects.
\<close>

datatype ls_item = Entry CacheEntry | Corrupt

record APICache =
  memoryCache :: "(string \<times> CacheEntry) list"
  localStorage :: "(string \<times> ls_item) list"

definition DEFAULT_TTL :: int where
  "DEFAULT_TTL = 5 * 60 * 1000"

definition MAX_MEMORY_ITEMS :: nat where
  "MAX_MEMORY_ITEMS = 100"

definition new_APICache :: APICache where
  "new_APICache = \<lparr>memoryCache = [], localStorage = []\<rparr>"

text \<open>
  Every \<^verbatim>\<open>Date.now()\<close> is a parameter. \<^verbatim>\<open>set\<close> reads the clock twice: \<open>now\<close>
  stamps the fast-layer entry and \<open>now_ls\<close>, read after the value has been
  serialized, stamps the slow-layer entry. \<^verbatim>\<open>get\<close> reads it once for each
  layer it tests: \<open>now\<close> for the fast layer, \<open>now_ls\<close> for the slow layer.
\<close>

definition isValidEntry :: "int \<Rightarrow> CacheEntry \<Rightarrow> bool" where
  "isValidEntry now entry = (now - timestamp entry < ttl entry)"

text \<open>
  \<^verbatim>\<open>set(endpoint, data, params, ttl)\<close>. \<open>ttl_arg = None\<close> is the omitted
  argument. \<open>quota\<close> says that \<^verbatim>\<open>localStorage.setItem\<close> throws (the quota is
  exceeded); the exception is caught and logged.
\<close>

definition APICache_set ::
  "string \<Rightarrow> json \<Rightarrow> params \<Rightarrow> int option \<Rightarrow> int \<Rightarrow> int \<Rightarrow> bool \<Rightarrow> APICache \<Rightarrow> APICache" where
  "APICache_set endpoint d params ttl_arg now now_ls quota c =
     (let ttl_ms = (case ttl_arg of None \<Rightarrow> DEFAULT_TTL | Some t \<Rightarrow> t);
          key = generateKey endpoint params;
          entry = \<lparr>data = d, timestamp = now, ttl = ttl_ms\<rparr>;
          ls_entry = \<lparr>data = d, timestamp = now_ls, ttl = ttl_ms\<rparr>;
          m1 = (if length (memoryCache c) \<ge> MAX_MEMORY_ITEMS
                then (case memoryCache c of
                        [] \<Rightarrow> []
                      | (oldestKey, e) # rest \<Rightarrow>
                          if oldestKey \<noteq> [] then map_delete oldestKey (memoryCache c)
                          else memoryCache c)
                else memoryCache c);
          m2 = map_set key entry m1;
          ls = (if length (JSON_stringify d) < 100000 \<and> \<not> quota
                then map_set key (Entry ls_entry) (localStorage c)
                else localStorage c)
      in \<lparr>memoryCache = m2, localStorage = ls\<rparr>)"

text \<open>
  \<^verbatim>\<open>get(endpoint, params)\<close>: the value returned (\<open>JNull\<close> is \<^verbatim>\<open>null\<close>) and the
  store afterwards.
\<close>

definition APICache_get ::
  "string \<Rightarrow> params \<Rightarrow> int \<Rightarrow> int \<Rightarrow> APICache \<Rightarrow> json \<times> APICache" where
  "APICache_get endpoint params now now_ls c =
     (let key = generateKey endpoint params;
          memoryEntry = map_of (memoryCache c) key
      in if (case memoryEntry of Some e \<Rightarrow> isValidEntry now e | None \<Rightarrow> False)
         then (data (the memoryEntry), c)
         else (case map_of (localStorage c) key of
                 None \<Rightarrow> (JNull, c)
               | Some Corrupt \<Rightarrow> (JNull, c)
               | Some (Entry parsed) \<Rightarrow>
                   if isValidEntry now_ls parsed
                   then (data parsed, c\<lparr>memoryCache := map_set key parsed (memoryCache c)\<rparr>)
                   else (JNull, c\<lparr>localStorage := map_delete key (localStorage c)\<rparr>)))"

definition invalidate :: "string \<Rightarrow> params \<Rightarrow> APICache \<Rightarrow> APICache" where
  "invalidate endpoint params c =
     (let key = generateKey endpoint params
      in \<lparr>memoryCache = map_delete key (memoryCache c),
          localStorage = map_delete key (localStorage c)\<rparr>)"

subsection \<open>Sequences of \<^verbatim>\<open>set\<close> calls\<close>

datatype set_call = SetCall string json params "int option" int int bool

fun apply_set :: "set_call \<Rightarrow> APICache \<Rightarrow> APICache" where
  "apply_set (SetCall endpoint d ps ttl_arg now now_ls quota) c =
     APICache_set endpoint d ps ttl_arg now now_ls quota c"

fun run_sets :: "set_call list \<Rightarrow> APICache \<Rightarrow> APICache" where
  "run_sets [] c = c"
| "run_sets (x # xs) c = run_sets xs (apply_set x c)"

text \<open>
  What \<^verbatim>\<open>set\<close> relies on in the fast layer: distinct keys, none of them the
  empty string (the \<^verbatim>\<open>if (oldestKey)\<close> test), and no more than the capacity.
\<close>

definition mem_inv :: "APICache \<Rightarrow> bool" where
  "mem_inv c =
     (distinct (map fst (memoryCache c)) \<and> [] \<notin> fst ` set (memoryCache c)
      \<and> length (memoryCache c) \<le> MAX_MEMORY_ITEMS)"

text \<open>The entry that \<^verbatim>\<open>set\<close> writes to a layer when it reads the clock value \<open>now\<close>.\<close>

definition new_entry :: "json \<Rightarrow> int option \<Rightarrow> int \<Rightarrow> CacheEntry" where
  "new_entry d ttl_arg now =
     \<lparr>data = d, timestamp = now, ttl = (case ttl_arg of None \<Rightarrow> DEFAULT_TTL | Some t \<Rightarrow> t)\<rparr>"

text \<open>A run of \<open>n\<close> calls with \<open>n\<close> different keys, used to fill the fast layer.\<close>

definition fill_endpoint :: "nat \<Rightarrow> string" where
  "fill_endpoint i = concat (replicate i ''aaa'')"

definition fill_calls :: "nat \<Rightarrow> set_call list" where
  "fill_calls n = map (\<lambda>i. SetCall (fill_endpoint i) JNull None None 0 0 False) [0..<n]"


text \<open>A value whose serialization has 100002 characters: too long for the slow layer.\<close>

definition big_value :: json where
  "big_value = JStr (replicate 100000 CHR ''a'')"

subsection \<open>The cache-wrapping decorator \<^verbatim>\<open>withCache\<close>\<close>

text \<open>
  The singleton \<^verbatim>\<open>apiCache\<close> together with a log of the argument lists with
  which the wrapped operation has been invoked.
\<close>

record wc_state =
  apiCache :: APICache
  invocations :: "json list list"

text \<open>\<^verbatim>\<open>typeof v === 'object'\<close>\<close>

fun typeof_object :: "json \<Rightarrow> bool" where
  "typeof_object JNull = True"
| "typeof_object (JArr xs) = True"
| "typeof_object (JObj kvs) = True"
| "typeof_object v = False"

text \<open>\<^verbatim>\<open>'success' in result\<close>, for a result that is an object or an array.\<close>

fun has_success :: "json \<Rightarrow> bool" where
  "has_success (JObj kvs) = (''success'' \<in> set (map fst kvs))"
| "has_success v = False"

text \<open>
  \<^verbatim>\<open>result && typeof result === 'object' && 'success' in result && result.success\<close>
\<close>

definition cacheable :: "json \<Rightarrow> bool" where
  "cacheable result =
     (truthy result \<and> typeof_object result \<and> has_success result
      \<and> truthy_opt (property result ''success''))"

text \<open>
  \<^verbatim>\<open>const params = args.length > 0 ? { args } : undefined\<close>
\<close>

definition wc_params :: "json list \<Rightarrow> params" where
  "wc_params args = (if length args > 0 then Some [(''args'', JArr args)] else None)"

text \<open>
  One call of the function that \<^verbatim>\<open>withCache(fn, endpoint, ttl)\<close> returns, with
  arguments \<open>args\<close>. The wrapped operation \<open>fn\<close> is given the number of its
  earlier invocations (it may answer differently each time) and the
  arguments; it resolves to a value (\<open>Inr\<close>) or rejects with an error
  (\<open>Inl\<close>), and a rejection passes through the wrapper. \<open>now_get\<close> and
  \<open>now_get_ls\<close> are the clock values that the lookup reads, \<open>now_set\<close> and
  \<open>now_set_ls\<close> those that the store reads after the await.
\<close>

definition withCache ::
  "(nat \<Rightarrow> json list \<Rightarrow> string + json) \<Rightarrow> string \<Rightarrow> int option \<Rightarrow> json list \<Rightarrow>
   int \<Rightarrow> int \<Rightarrow> int \<Rightarrow> int \<Rightarrow> bool \<Rightarrow> wc_state \<Rightarrow> (string + json) \<times> wc_state" where
  "withCache fn endpoint ttl_arg args now_get now_get_ls now_set now_set_ls quota s =
     (let params = wc_params args;
          looked = APICache_get endpoint params now_get now_get_ls (apiCache s);
          cached = fst looked;
          c1 = snd looked
      in if truthy cached then (Inr cached, s\<lparr>apiCache := c1\<rparr>)
         else
           (let s1 = s\<lparr>apiCache := c1, invocations := invocations s @ [args]\<rparr>
            in case fn (length (invocations s)) args of
                 Inl err \<Rightarrow> (Inl err, s1)
               | Inr result \<Rightarrow>
                   if cacheable result
                   then (Inr result,
                         s1\<lparr>apiCache := APICache_set endpoint result params ttl_arg
                                         now_set now_set_ls quota c1\<rparr>)
                   else (Inr result, s1)))"

section \<open>The backend (\<^verbatim>\<open>server.ts\<close>)\<close>

text \<open>
  A row of the \<^verbatim>\<open>users\<close> table. \<^verbatim>\<open>id\<close> is \<open>userId\<close> here (\<open>id\<close> is the
  identity function of HOL). The two timestamps are numbers of milliseconds.
\<close>

record User =
  userId :: string
  fullName :: string
  email :: string
  phoneNumber :: "string option"
  bio :: "string option"
  avatarUrl :: "string option"
  dateOfBirth :: "string option"
  location :: "string option"
  createdAt :: int
  updatedAt :: int

fun opt_json :: "string option \<Rightarrow> json" where
  "opt_json None = JNull"
| "opt_json (Some s) = JStr s"

text \<open>The object that \<^verbatim>\<open>res.json(user)\<close> sends.\<close>

definition user_json :: "User \<Rightarrow> json" where
  "user_json u =
     JObj [(''id'', JStr (userId u)), (''fullName'', JStr (fullName u)),
           (''email'', JStr (email u)), (''phoneNumber'', opt_json (phoneNumber u)),
           (''bio'', opt_json (bio u)), (''avatarUrl'', opt_json (avatarUrl u)),
           (''dateOfBirth'', opt_json (dateOfBirth u)), (''location'', opt_json (location u)),
           (''createdAt'', JNum (createdAt u)), (''updatedAt'', JNum (updatedAt u))]"

text \<open>
  The database behind Prisma: the rows, and whether the database answers at
  all. A Prisma call returns its result or throws an error with a code.
\<close>

record Db =
  rows :: "User list"
  online :: bool

datatype prisma_error = P2002 | P2025 | OtherError

text \<open>\<^verbatim>\<open>prisma.user.findMany({ orderBy: { createdAt: 'desc' } })\<close>\<close>

definition findMany :: "Db \<Rightarrow> prisma_error + User list" where
  "findMany db = (if online db then Inr (rev (sort_key createdAt (rows db))) else Inl OtherError)"

text \<open>\<^verbatim>\<open>prisma.user.findUnique({ where: { id } })\<close>\<close>

definition findUnique :: "string \<Rightarrow> Db \<Rightarrow> prisma_error + User option" where
  "findUnique uid db =
     (if online db then Inr (find (\<lambda>u. userId u = uid) (rows db)) else Inl OtherError)"

text \<open>\<^verbatim>\<open>prisma.user.delete({ where: { id } })\<close>: the database afterwards, or the error.\<close>

definition delete_row :: "string \<Rightarrow> Db \<Rightarrow> prisma_error + Db" where
  "delete_row uid db =
     (if \<not> online db then Inl OtherError
      else if find (\<lambda>u. userId u = uid) (rows db) = None then Inl P2025
      else Inr (db\<lparr>rows := filter (\<lambda>u. userId u \<noteq> uid) (rows db)\<rparr>))"

text \<open>
  A request as the routes see it, and a response. \<open>parsed_body\<close> is what
  \<^verbatim>\<open>response.json()\<close> gives on the client: the parsed value, or the message
  of the SyntaxError for a body that is not JSON.
\<close>

record Request =
  req_method :: string
  req_path :: "string list"
  req_query :: "(string \<times> string) list"
  req_body :: "json option"

record HttpResponse =
  status :: nat
  parsed_body :: "string + json"

definition send_json :: "nat \<Rightarrow> json \<Rightarrow> HttpResponse" where
  "send_json code v = \<lparr>status = code, parsed_body = Inr v\<rparr>"

definition error_json :: "string \<Rightarrow> json" where
  "error_json msg = JObj [(''error'', JStr msg)]"

text \<open>\<^verbatim>\<open>app.get('/api/users', ...)\<close>: the request is not read.\<close>

definition get_api_users :: "Request \<Rightarrow> Db \<Rightarrow> HttpResponse \<times> Db" where
  "get_api_users req db =
     (case findMany db of
        Inr users \<Rightarrow> (send_json 200 (JArr (map user_json users)), db)
      | Inl err \<Rightarrow> (send_json 500 (error_json ''Failed to fetch users''), db))"

text \<open>\<^verbatim>\<open>app.get('/api/users/:id', ...)\<close>\<close>

definition get_api_users_id :: "string \<Rightarrow> Db \<Rightarrow> HttpResponse \<times> Db" where
  "get_api_users_id uid db =
     (case findUnique uid db of
        Inr None \<Rightarrow> (send_json 404 (error_json ''User not found''), db)
      | Inr (Some user) \<Rightarrow> (send_json 200 (user_json user), db)
      | Inl err \<Rightarrow> (send_json 500 (error_json ''Failed to fetch user''), db))"

text \<open>\<^verbatim>\<open>app.delete('/api/users/:id', ...)\<close>\<close>

definition delete_api_users_id :: "string \<Rightarrow> Db \<Rightarrow> HttpResponse \<times> Db" where
  "delete_api_users_id uid db =
     (case delete_row uid db of
        Inr db' \<Rightarrow> (send_json 200 (JObj [(''message'', JStr ''User deleted successfully'')]), db')
      | Inl P2025 \<Rightarrow> (send_json 404 (error_json ''User not found''), db)
      | Inl err \<Rightarrow> (send_json 500 (error_json ''Failed to delete user''), db))"

text \<open>
  The three routes above, by method and path (the routes for \<^verbatim>\<open>POST\<close> and
  \<^verbatim>\<open>PUT\<close> are not modelled: \<open>None\<close>).
\<close>

definition route :: "Request \<Rightarrow> Db \<Rightarrow> (HttpResponse \<times> Db) option" where
  "route req db =
     (if req_method req = ''GET'' \<and> req_path req = [''api'', ''users'']
        then Some (get_api_users req db)
      else if req_method req = ''GET'' \<and> length (req_path req) = 3
              \<and> take 2 (req_path req) = [''api'', ''users'']
        then Some (get_api_users_id (req_path req ! 2) db)
      else if req_method req = ''DELETE'' \<and> length (req_path req) = 3
              \<and> take 2 (req_path req) = [''api'', ''users'']
        then Some (delete_api_users_id (req_path req ! 2) db)
      else None)"

section \<open>The API client (\<^verbatim>\<open>lib/api.ts\<close>)\<close>

text \<open>
  The uniform result \<^verbatim>\<open>{ data, success, message }\<close>. \<^verbatim>\<open>data\<close> is
  \<open>response_data\<close> here (\<open>data\<close> is the field of a cache entry). \<open>message\<close>
  is a JSON value, because \<^verbatim>\<open>data.error\<close> is passed on whatever its type.
\<close>

record ApiResponse =
  response_data :: json
  success :: bool
  message :: json

text \<open>What a \<^verbatim>\<open>catch\<close> receives: an \<^verbatim>\<open>Error\<close> with its message, or another value.\<close>

datatype thrown = ErrorObj string | OtherThrown

text \<open>What \<^verbatim>\<open>await fetch(url, options)\<close> does: it rejects, or it gives a response.\<close>

datatype fetch_outcome = Rejected thrown | Responded HttpResponse

definition response_ok :: "HttpResponse \<Rightarrow> bool" where
  "response_ok response = (200 \<le> status response \<and> status response \<le> 299)"

text \<open>The \<^verbatim>\<open>catch\<close> branch of \<^verbatim>\<open>fetchWithErrorHandling\<close>.\<close>

definition caught :: "thrown \<Rightarrow> ApiResponse" where
  "caught err =
     \<lparr>response_data = JObj [], success = False,
      message = JStr (case err of ErrorObj m \<Rightarrow> m | OtherThrown \<Rightarrow> ''An unexpected error occurred'')\<rparr>"

text \<open>The message of the TypeError that \<^verbatim>\<open>data.error\<close> throws when \<^verbatim>\<open>data\<close> is \<^verbatim>\<open>null\<close>.\<close>

definition null_read_message :: string where
  "null_read_message = ''Cannot read properties of null (reading 'error')''"

definition fetchWithErrorHandling :: "fetch_outcome \<Rightarrow> ApiResponse" where
  "fetchWithErrorHandling outcome =
     (case outcome of
        Rejected err \<Rightarrow> caught err
      | Responded response \<Rightarrow>
          (case parsed_body response of
             Inl syntax_error \<Rightarrow> caught (ErrorObj syntax_error)
           | Inr d \<Rightarrow>
               if \<not> response_ok response
               then (if d = JNull then caught (ErrorObj null_read_message)
                     else \<lparr>response_data = JObj [], success = False,
                           message =
                             (if truthy_opt (property d ''error'') then the (property d ''error'')
                              else JStr (''HTTP error! status: '' @ show_nat (status response)))\<rparr>)
               else \<lparr>response_data = d, success = True,
                     message = JStr ''Operation completed successfully''\<rparr>))"

text \<open>\<^verbatim>\<open>s.trim()\<close>, on code units below 256.\<close>

definition is_space :: "char \<Rightarrow> bool" where
  "is_space c = (of_char c \<in> {9, 10, 11, 12, 13, 32, 160 :: nat})"

definition trim :: "string \<Rightarrow> string" where
  "trim s = rev (dropWhile is_space (rev (dropWhile is_space s)))"

text \<open>The requests that the operations send.\<close>

definition getAllUsers_request :: "int \<Rightarrow> int \<Rightarrow> string \<Rightarrow> Request" where
  "getAllUsers_request page limit search =
     \<lparr>req_method = ''GET'', req_path = [''api'', ''users''],
      req_query = [(''page'', show_int page), (''limit'', show_int limit), (''search'', trim search)],
      req_body = None\<rparr>"

definition getAllUsersUnpaginated_request :: Request where
  "getAllUsersUnpaginated_request =
     \<lparr>req_method = ''GET'', req_path = [''api'', ''users''],
      req_query = [(''limit'', ''1000'')], req_body = None\<rparr>"

definition getUserById_request :: "string \<Rightarrow> Request" where
  "getUserById_request uid =
     \<lparr>req_method = ''GET'', req_path = [''api'', ''users'', uid], req_query = [], req_body = None\<rparr>"

definition createUser_request :: "json \<Rightarrow> Request" where
  "createUser_request userData =
     \<lparr>req_method = ''POST'', req_path = [''api'', ''users''], req_query = [],
      req_body = Some userData\<rparr>"

definition updateUser_request :: "string \<Rightarrow> json \<Rightarrow> Request" where
  "updateUser_request uid userData =
     \<lparr>req_method = ''PUT'', req_path = [''api'', ''users'', uid], req_query = [],
      req_body = Some userData\<rparr>"


text \<open>
  The operations, given the network as a function from the request to what
  \<^verbatim>\<open>fetch\<close> does with it.
\<close>

definition getAllUsers :: "(Request \<Rightarrow> fetch_outcome) \<Rightarrow> int \<Rightarrow> int \<Rightarrow> string \<Rightarrow> ApiResponse" where
  "getAllUsers fetch page limit search =
     fetchWithErrorHandling (fetch (getAllUsers_request page limit search))"

definition getAllUsersUnpaginated :: "(Request \<Rightarrow> fetch_outcome) \<Rightarrow> ApiResponse" where
  "getAllUsersUnpaginated fetch = fetchWithErrorHandling (fetch getAllUsersUnpaginated_request)"

definition createUser :: "(Request \<Rightarrow> fetch_outcome) \<Rightarrow> json \<Rightarrow> ApiResponse" where
  "createUser fetch userData = fetchWithErrorHandling (fetch (createUser_request userData))"

definition updateUser :: "(Request \<Rightarrow> fetch_outcome) \<Rightarrow> string \<Rightarrow> json \<Rightarrow> ApiResponse" where
  "updateUser fetch uid userData = fetchWithErrorHandling (fetch (updateUser_request uid userData))"

text \<open>\<^verbatim>\<open>s.includes(sub)\<close> on strings.\<close>

fun str_includes :: "string \<Rightarrow> string \<Rightarrow> bool" where
  "str_includes [] sub = (sub = [])"
| "str_includes (c # s) sub = (take (length sub) (c # s) = sub \<or> str_includes s sub)"

text \<open>
  \<^verbatim>\<open>response.message.includes('404')\<close>: the substring test on a string, the
  membership test on an array, and a TypeError (\<open>None\<close>) on any other value,
  which has no method \<^verbatim>\<open>includes\<close>.
\<close>

fun message_includes_404 :: "json \<Rightarrow> bool option" where
  "message_includes_404 (JStr s) = Some (str_includes s ''404'')"
| "message_includes_404 (JArr xs) = Some (JStr ''404'' \<in> set xs)"
| "message_includes_404 v = None"

definition not_a_function_message :: string where
  "not_a_function_message = ''response.message.includes is not a function''"

text \<open>\<^verbatim>\<open>getUserById(id)\<close>: the result, or the error with which the call rejects.\<close>

definition getUserById :: "(Request \<Rightarrow> fetch_outcome) \<Rightarrow> string \<Rightarrow> thrown + ApiResponse" where
  "getUserById fetch uid =
     (let response = fetchWithErrorHandling (fetch (getUserById_request uid))
      in if success response then Inr response
         else (case message_includes_404 (message response) of
                 None \<Rightarrow> Inl (ErrorObj not_a_function_message)
               | Some True \<Rightarrow>
                   Inr \<lparr>response_data = JNull, success = False, message = JStr ''User not found''\<rparr>
               | Some False \<Rightarrow> Inr response))"


text \<open>
  The network when every request reaches the backend \<open>db\<close> and every
  response comes back.
\<close>

definition backend :: "Db \<Rightarrow> Request \<Rightarrow> fetch_outcome" where
  "backend db req =
     (case route req db of
        Some (response, db') \<Rightarrow> Responded response
      | None \<Rightarrow> Rejected (ErrorObj ''Failed to fetch''))"

text \<open>Two rows used in examples.\<close>

definition ada :: User where
  "ada = \<lparr>userId = ''u1'', fullName = ''Ada'', email = ''ada@example.org'', phoneNumber = None,
          bio = None, avatarUrl = None, dateOfBirth = None, location = None,
          createdAt = 1, updatedAt = 1\<rparr>"

definition bob :: User where
  "bob = \<lparr>userId = ''u2'', fullName = ''Bob'', email = ''bob@example.org'', phoneNumber = None,
          bio = None, avatarUrl = None, dateOfBirth = None, location = None,
          createdAt = 2, updatedAt = 2\<rparr>"

definition two_users :: Db where
  "two_users = \<lparr>rows = [ada, bob], online = True\<rparr>"

section \<open>The pagination coordinator (\<^verbatim>\<open>App.tsx\<close>)\<close>

text \<open>
  The part of the component state that \<^verbatim>\<open>loadUsers\<close>, \<^verbatim>\<open>handlePageChange\<close>
  and \<^verbatim>\<open>handleDeleteUser\<close> read and write. \<open>users\<close> and \<open>pagination\<close> hold
  what was read from the response (\<open>None\<close> is \<^verbatim>\<open>undefined\<close>). A notification
  is its type and its message.
\<close>

record AppState =
  users :: "json option"
  isLoading :: bool
  currentPage :: int
  pagination :: "json option"
  debouncedSearchQuery :: string
  showDeleteModal :: bool
  userToDelete :: "User option"
  notifications :: "(string \<times> json) list"

definition initial_pagination :: json where
  "initial_pagination =
     JObj [(''currentPage'', JNum 1), (''totalPages'', JNum 1), (''totalUsers'', JNum 0),
           (''limit'', JNum 20), (''hasNextPage'', JBool False), (''hasPrevPage'', JBool False)]"

definition initial_AppState :: AppState where
  "initial_AppState =
     \<lparr>users = Some (JArr []), isLoading = True, currentPage = 1,
      pagination = Some initial_pagination, debouncedSearchQuery = [],
      showDeleteModal = False, userToDelete = None, notifications = []\<rparr>"

definition addNotification :: "string \<Rightarrow> json \<Rightarrow> AppState \<Rightarrow> AppState" where
  "addNotification type msg a = a\<lparr>notifications := notifications a @ [(type, msg)]\<rparr>"

text \<open>\<^verbatim>\<open>loadUsers\<close> up to its \<^verbatim>\<open>await\<close>: \<^verbatim>\<open>setIsLoading(true)\<close>, and the request leaves.\<close>

definition loadUsers_start :: "AppState \<Rightarrow> AppState" where
  "loadUsers_start a = a\<lparr>isLoading := True\<rparr>"

text \<open>
  \<^verbatim>\<open>loadUsers\<close> after its \<^verbatim>\<open>await\<close>, with the response it received. When
  \<^verbatim>\<open>response.data\<close> is \<^verbatim>\<open>null\<close>, reading \<^verbatim>\<open>response.data.data\<close> throws and only
  the \<^verbatim>\<open>finally\<close> block runs.
\<close>

definition loadUsers_finish :: "ApiResponse \<Rightarrow> AppState \<Rightarrow> AppState" where
  "loadUsers_finish response a =
     (let a1 = (if success response
                then (if response_data response = JNull then a
                      else a\<lparr>users := property (response_data response) ''data'',
                            pagination := property (response_data response) ''pagination''\<rparr>)
                else addNotification ''error'' (JStr ''Failed to load users'') a)
      in a1\<lparr>isLoading := False\<rparr>)"


subsection \<open>Requests in flight\<close>

text \<open>
  The component together with the list of the requests that have left and have not
  been answered, oldest first: the page and the search text of each.
\<close>

record Coordinator =
  app_state :: AppState
  in_flight :: "(int \<times> string) list"

text \<open>
  \<open>Navigate p\<close> is \<^verbatim>\<open>handlePageChange(p)\<close> followed by the effect on
  \<^verbatim>\<open>currentPage\<close>; \<open>Arrive k r\<close> is the arrival of the response \<open>r\<close> to the
  request at position \<open>k\<close> of the list.
\<close>

datatype event = Navigate int | Arrive nat ApiResponse

fun step :: "event \<Rightarrow> Coordinator \<Rightarrow> Coordinator" where
  "step (Navigate p) c =
     (if p = currentPage (app_state c) then c
      else \<lparr>app_state = loadUsers_start ((app_state c)\<lparr>currentPage := p\<rparr>),
            in_flight = in_flight c @ [(p, debouncedSearchQuery (app_state c))]\<rparr>)"
| "step (Arrive k r) c =
     (if k < length (in_flight c)
      then \<lparr>app_state = loadUsers_finish r (app_state c),
            in_flight = take k (in_flight c) @ drop (Suc k) (in_flight c)\<rparr>
      else c)"

fun run :: "event list \<Rightarrow> Coordinator \<Rightarrow> Coordinator" where
  "run [] c = c"
| "run (ev # evs) c = run evs (step ev c)"

text \<open>After the first render: the effect has sent the request for page 1.\<close>

definition mounted :: Coordinator where
  "mounted = \<lparr>app_state = loadUsers_start initial_AppState, in_flight = [(1, [])]\<rparr>"

text \<open>A successful list response with the given rows and page number.\<close>

definition page_response :: "json list \<Rightarrow> int \<Rightarrow> ApiResponse" where
  "page_response rs n =
     \<lparr>response_data = JObj [(''data'', JArr rs), (''pagination'', JObj [(''currentPage'', JNum n)])],
      success = True, message = JStr ''Operation completed successfully''\<rparr>"

subsection \<open>Deleting a profile\<close>

text \<open>
  The backend, the singleton \<^verbatim>\<open>apiCache\<close> of \<^verbatim>\<open>utils/apiCache.ts\<close> and the
  component.
\<close>

record World =
  db :: Db
  store :: APICache
  app :: AppState







section \<open>\<^verbatim>\<open>JSON.parse\<close>\<close>

text \<open>
  The parser of JSON texts, for the values of this model: a text that denotes
  a number with a fraction or an exponent, or a string with a code unit above
  255, is outside the model and gets \<open>None\<close>, as a text does that
  \<^verbatim>\<open>JSON.parse\<close> rejects with a SyntaxError.
\<close>

definition is_ws :: "char \<Rightarrow> bool" where
  "is_ws c = (of_char c \<in> {9, 10, 13, 32 :: nat})"

definition skip_ws :: "string \<Rightarrow> string" where
  "skip_ws s = dropWhile is_ws s"

definition hex_val :: "char \<Rightarrow> nat option" where
  "hex_val c =
     (let n = (of_char c :: nat)
      in if 48 \<le> n \<and> n \<le> 57 then Some (n - 48)
         else if 97 \<le> n \<and> n \<le> 102 then Some (n - 87)
         else if 65 \<le> n \<and> n \<le> 70 then Some (n - 55)
         else None)"

text \<open>The character that a backslash and \<open>e\<close> stand for, \<^verbatim>\<open>\u\<close> apart.\<close>

definition unescape :: "char \<Rightarrow> char option" where
  "unescape e =
     (if e = CHR 0x22 then Some (CHR 0x22)
      else if e = CHR 0x5C then Some (CHR 0x5C)
      else if e = CHR ''/'' then Some (CHR ''/'')
      else if e = CHR ''b'' then Some (CHR 0x08)
      else if e = CHR ''f'' then Some (CHR 0x0C)
      else if e = CHR ''n'' then Some (CHR 0x0A)
      else if e = CHR ''r'' then Some (CHR 0x0D)
      else if e = CHR ''t'' then Some (CHR 0x09)
      else None)"

text \<open>
  The inside of a string literal, after the opening quote: the characters
  read so far (latest first), and where the reader stands: in plain text,
  after a backslash, or among the four hexadecimal digits of \<^verbatim>\<open>\u\<close>. The
  result is the string and the text after the closing quote.
\<close>

datatype string_state = Plain | Escaped | Hex "nat list"

fun parse_chars :: "string_state \<Rightarrow> string \<Rightarrow> string \<Rightarrow> (string \<times> string) option" where
  "parse_chars st acc [] = None"
| "parse_chars Plain acc (c # s) =
     (if c = CHR 0x22 then Some (rev acc, s)
      else if c = CHR 0x5C then parse_chars Escaped acc s
      else if (of_char c :: nat) < 32 then None
      else parse_chars Plain (c # acc) s)"
| "parse_chars Escaped acc (e # s) =
     (if e = CHR ''u'' then parse_chars (Hex []) acc s
      else (case unescape e of
              None \<Rightarrow> None
            | Some ch \<Rightarrow> parse_chars Plain (ch # acc) s))"
| "parse_chars (Hex ds) acc (h # s) =
     (case hex_val h of
        None \<Rightarrow> None
      | Some d \<Rightarrow>
          if length ds = 3
          then (let n = foldl (\<lambda>a b. a * 16 + b) 0 (ds @ [d])
                in if n < 256 then parse_chars Plain (char_of n # acc) s else None)
          else parse_chars (Hex (ds @ [d])) acc s)"

definition is_digit :: "char \<Rightarrow> bool" where
  "is_digit c = (48 \<le> (of_char c :: nat) \<and> (of_char c :: nat) \<le> 57)"

definition read_nat :: "string \<Rightarrow> nat" where
  "read_nat ds = foldl (\<lambda>a c. a * 10 + (of_char c - 48)) 0 ds"

text \<open>
  A number: an optional minus sign and the digits of an integer without a
  leading zero.
\<close>

definition parse_number :: "string \<Rightarrow> (json \<times> string) option" where
  "parse_number s =
     (let negative = (s \<noteq> [] \<and> hd s = CHR ''-'');
          s1 = (if negative then tl s else s);
          ds = takeWhile is_digit s1;
          rest = dropWhile is_digit s1
      in if ds = [] then None
         else if hd ds = CHR ''0'' \<and> length ds > 1 then None
         else if rest \<noteq> [] \<and> hd rest \<in> {CHR ''.'', CHR ''e'', CHR ''E''} then None
         else Some (JNum ((if negative then - 1 else 1) * int (read_nat ds)), rest))"

text \<open>
  A value, the elements of an array after \<^verbatim>\<open>[\<close> or a comma, and the members
  of an object after \<^verbatim>\<open>{\<close> or a comma, each with the text that follows. The
  first argument bounds the number of nested calls; every call reads at
  least one character before the next. A repeated key keeps its first place
  and takes the later value, as a property assignment does.
\<close>

fun parse_value :: "nat \<Rightarrow> string \<Rightarrow> (json \<times> string) option"
  and parse_elements :: "nat \<Rightarrow> json list \<Rightarrow> string \<Rightarrow> (json list \<times> string) option"
  and parse_members ::
    "nat \<Rightarrow> (string \<times> json) list \<Rightarrow> string \<Rightarrow> ((string \<times> json) list \<times> string) option"
where
  "parse_value 0 s = None"
| "parse_value (Suc f) s =
     (case skip_ws s of
        [] \<Rightarrow> None
      | c # r \<Rightarrow>
          if c = CHR ''{''
          then (if skip_ws r \<noteq> [] \<and> hd (skip_ws r) = CHR ''}''
                then Some (JObj [], tl (skip_ws r))
                else map_option (\<lambda>(kvs, r'). (JObj kvs, r')) (parse_members f [] r))
          else if c = CHR ''[''
          then (if skip_ws r \<noteq> [] \<and> hd (skip_ws r) = CHR '']''
                then Some (JArr [], tl (skip_ws r))
                else map_option (\<lambda>(vs, r'). (JArr vs, r')) (parse_elements f [] r))
          else if c = CHR 0x22
          then map_option (\<lambda>(t, r'). (JStr t, r')) (parse_chars Plain [] r)
          else if take 4 (c # r) = ''true'' then Some (JBool True, drop 4 (c # r))
          else if take 5 (c # r) = ''false'' then Some (JBool False, drop 5 (c # r))
          else if take 4 (c # r) = ''null'' then Some (JNull, drop 4 (c # r))
          else parse_number (c # r))"
| "parse_elements 0 acc s = None"
| "parse_elements (Suc f) acc s =
     (case parse_value f s of
        None \<Rightarrow> None
      | Some (v, r) \<Rightarrow>
          (case skip_ws r of
             [] \<Rightarrow> None
           | c # r' \<Rightarrow>
               if c = CHR '','' then parse_elements f (acc @ [v]) r'
               else if c = CHR '']'' then Some (acc @ [v], r')
               else None))"
| "parse_members 0 acc s = None"
| "parse_members (Suc f) acc s =
     (case skip_ws s of
        [] \<Rightarrow> None
      | q # r \<Rightarrow>
          if q \<noteq> CHR 0x22 then None
          else (case parse_chars Plain [] r of
                  None \<Rightarrow> None
                | Some (k, r1) \<Rightarrow>
                    (case skip_ws r1 of
                       [] \<Rightarrow> None
                     | colon # r2 \<Rightarrow>
                         if colon \<noteq> CHR '':'' then None
                         else (case parse_value f r2 of
                                 None \<Rightarrow> None
                               | Some (v, r3) \<Rightarrow>
                                   (case skip_ws r3 of
                                      [] \<Rightarrow> None
                                    | c # r4 \<Rightarrow>
                                        if c = CHR '','' then parse_members f (map_set k v acc) r4
                                        else if c = CHR ''}'' then Some (map_set k v acc, r4)
                                        else None)))))"

text \<open>\<^verbatim>\<open>JSON.parse(text)\<close>: the value, or \<open>None\<close> where it throws.\<close>

definition JSON_parse :: "string \<Rightarrow> json option" where
  "JSON_parse s =
     (case parse_value (Suc (length s)) s of
        None \<Rightarrow> None
      | Some (v, rest) \<Rightarrow> if skip_ws rest = [] then Some v else None)"

section \<open>The QR codec (\<^verbatim>\<open>QRCodeModal.tsx\<close>)\<close>

text \<open>\<^verbatim>\<open>user.phoneNumber || ''\<close> and the like, for an optional string.\<close>

definition or_empty_str :: "string option \<Rightarrow> string" where
  "or_empty_str x = (case x of None \<Rightarrow> [] | Some s \<Rightarrow> s)"

text \<open>\<^verbatim>\<open>user.dateOfBirth ? user.dateOfBirth.split('T')[0] : ''\<close>\<close>

definition date_part :: "string option \<Rightarrow> string" where
  "date_part x =
     (case x of
        None \<Rightarrow> []
      | Some s \<Rightarrow> if s = [] then [] else takeWhile (\<lambda>c. c \<noteq> CHR ''T'') s)"

text \<open>The envelope \<^verbatim>\<open>qrData\<close> that \<^verbatim>\<open>generateQRCode\<close> builds.\<close>

definition qrData :: "User \<Rightarrow> json" where
  "qrData user =
     JObj [(''type'', JStr ''user-profile''),
           (''version'', JStr ''1.0''),
           (''data'',
            JObj [(''fullName'', JStr (fullName user)),
                  (''email'', JStr (email user)),
                  (''phoneNumber'', JStr (or_empty_str (phoneNumber user))),
                  (''bio'', JStr (or_empty_str (bio user))),
                  (''avatarUrl'', JStr (or_empty_str (avatarUrl user))),
                  (''dateOfBirth'', JStr (date_part (dateOfBirth user))),
                  (''location'', JStr (or_empty_str (location user)))])]"

text \<open>
  \<^verbatim>\<open>generateQRCode\<close>: the text \<^verbatim>\<open>JSON.stringify(qrData)\<close> that is rendered
  into the image; nothing without a user. The image is represented by the
  text it carries: \<^verbatim>\<open>QRCode.toDataURL\<close> and the scanner are taken to give
  back the text they were given, for a text within the capacity of a code.
\<close>

definition generateQRCode :: "User option \<Rightarrow> string option" where
  "generateQRCode user = (case user of None \<Rightarrow> None | Some u \<Rightarrow> Some (JSON_stringify (qrData u)))"

definition scan_error :: string where
  "scan_error = ''Invalid QR code format or missing required information.''"

text \<open>
  \<^verbatim>\<open>handleScanResult(result, setErrorFn)\<close> on the scanned text \<open>result\<close>. The
  outcome is the message given to \<^verbatim>\<open>setErrorFn\<close> (\<open>Inl\<close>), or the object
  \<^verbatim>\<open>userData\<close> given to \<^verbatim>\<open>onUserDataScanned\<close> (\<open>Inr\<close>). A SyntaxError of
  \<^verbatim>\<open>JSON.parse\<close> and the TypeError of a property read on \<^verbatim>\<open>null\<close> end in the
  \<^verbatim>\<open>catch\<close> block like the two errors that the function throws itself.
\<close>

definition handleScanResult :: "string \<Rightarrow> string + json" where
  "handleScanResult result =
     (case JSON_parse result of
        None \<Rightarrow> Inl scan_error
      | Some parsedData \<Rightarrow>
          if parsedData = JNull then Inl scan_error
          else if property parsedData ''type'' \<noteq> Some (JStr ''user-profile'')
                  \<or> \<not> truthy_opt (property parsedData ''data'')
          then Inl scan_error
          else (let d = the (property parsedData ''data'');
                    userData_fullName = or_empty (property d ''fullName'');
                    userData_email = or_empty (property d ''email'')
                in if \<not> truthy userData_fullName \<or> \<not> truthy userData_email
                   then Inl scan_error
                   else Inr (JObj [(''fullName'', userData_fullName),
                                   (''email'', userData_email),
                                   (''phoneNumber'', or_empty (property d ''phoneNumber'')),
                                   (''bio'', or_empty (property d ''bio'')),
                                   (''avatarUrl'', or_empty (property d ''avatarUrl'')),
                                   (''dateOfBirth'', or_empty (property d ''dateOfBirth'')),
                                   (''location'', or_empty (property d ''location''))])))"

text \<open>Two scanned texts used in examples: a foreign tag, and a profile without email.\<close>

definition contact_text :: string where
  "contact_text =
     JSON_stringify (JObj [(''type'', JStr ''contact''),
       (''data'', JObj [(''fullName'', JStr ''Ada''), (''email'', JStr ''ada@example.org'')])])"

definition no_email_text :: string where
  "no_email_text =
     JSON_stringify (JObj [(''type'', JStr ''user-profile''),
       (''data'', JObj [(''fullName'', JStr ''Ada'')])])"

section \<open>Properties of the cache store\<close>

subsection \<open>The insertion-ordered map\<close>

lemma map_of_map_set: "map_of (map_set k v m) k' = (if k' = k then Some v else map_of m k')"
  by (induction m) auto

lemma map_of_map_delete: "map_of (map_delete k m) k' = (if k' = k then None else map_of m k')"
  by (induction m) (auto simp: map_delete_def)

lemma keys_map_set:
  "map fst (map_set k v m) = (if k \<in> fst ` set m then map fst m else map fst m @ [k])"
  by (induction m) force+

lemma distinct_map_set: "distinct (map fst m) \<Longrightarrow> distinct (map fst (map_set k v m))"
  by (simp add: keys_map_set)

lemma length_map_set_le: "length (map_set k v m) \<le> Suc (length m)"
  by (induction m) auto

lemma map_delete_hd:
  assumes "distinct (map fst ((k, v) # m))"
  shows "map_delete k ((k, v) # m) = m"
proof -
  from assms have "k \<notin> fst ` set m" by simp
  then have "\<forall>x\<in>set m. (case x of (k', v) \<Rightarrow> k' \<noteq> k)" by force
  then have "filter (\<lambda>(k', v). k' \<noteq> k) m = m" by (simp only: filter_id_conv)
  then show ?thesis by (simp add: map_delete_def)
qed

subsection \<open>Capacity of the fast layer\<close>

lemma generateKey_nonempty: "generateKey e p \<noteq> []"
  by (simp add: generateKey_def)

lemma memoryCache_set_full:
  assumes "distinct (map fst (memoryCache c))" and "[] \<notin> fst ` set (memoryCache c)"
    and "length (memoryCache c) \<ge> MAX_MEMORY_ITEMS"
  shows "memoryCache (APICache_set e d p t now now_ls q c) =
           map_set (generateKey e p) (new_entry d t now) (tl (memoryCache c))"
proof (cases "memoryCache c")
  case Nil
  with assms(3) show ?thesis by (simp add: MAX_MEMORY_ITEMS_def)
next
  case (Cons kv rest)
  obtain k v where kv: "kv = (k, v)" by (cases kv)
  from assms(2) Cons kv have "k \<noteq> []" by auto
  moreover from assms(1) Cons kv have "map_delete k ((k, v) # rest) = rest"
    by (intro map_delete_hd) simp
  ultimately show ?thesis using assms(3) Cons kv
    by (simp add: APICache_set_def new_entry_def Let_def)
qed

lemma memoryCache_set_room:
  assumes "length (memoryCache c) < MAX_MEMORY_ITEMS"
  shows "memoryCache (APICache_set e d p t now now_ls q c) =
           map_set (generateKey e p) (new_entry d t now) (memoryCache c)"
  using assms by (simp add: APICache_set_def new_entry_def Let_def)

lemma mem_inv_set:
  assumes "mem_inv c"
  shows "mem_inv (APICache_set e d p t now now_ls q c)"
proof (cases "length (memoryCache c) < MAX_MEMORY_ITEMS")
  case True
  have "length (map_set (generateKey e p) (new_entry d t now) (memoryCache c))
          \<le> Suc (length (memoryCache c))"
    by (rule length_map_set_le)
  moreover have "fst ` set (map_set (generateKey e p) (new_entry d t now) (memoryCache c))
          \<subseteq> insert (generateKey e p) (fst ` set (memoryCache c))"
    using keys_map_set [of "generateKey e p" "new_entry d t now" "memoryCache c"]
    by (metis (no_types, lifting) insert_absorb list.set_map set_append set_simps(1,2)
        subset_insertI Un_insert_right sup_bot.right_neutral order_refl)
  ultimately show ?thesis
    using True assms generateKey_nonempty [of e p]
    unfolding mem_inv_def memoryCache_set_room [OF True]
    by (auto simp: distinct_map_set)
next
  case False
  let ?m = "memoryCache c"
  from False assms have full: "length ?m = MAX_MEMORY_ITEMS"
    by (simp add: mem_inv_def)
  then obtain kv rest where m: "?m = kv # rest"
    by (cases ?m) (auto simp: MAX_MEMORY_ITEMS_def)
  have eq: "memoryCache (APICache_set e d p t now now_ls q c) =
              map_set (generateKey e p) (new_entry d t now) (tl ?m)"
    using assms full by (intro memoryCache_set_full) (auto simp: mem_inv_def)
  have "length (map_set (generateKey e p) (new_entry d t now) (tl ?m)) \<le> Suc (length (tl ?m))"
    by (rule length_map_set_le)
  moreover have "distinct (map fst (tl ?m))" and "[] \<notin> fst ` set (tl ?m)"
    using assms m by (auto simp: mem_inv_def)
  moreover have "fst ` set (map_set (generateKey e p) (new_entry d t now) (tl ?m))
          \<subseteq> insert (generateKey e p) (fst ` set (tl ?m))"
    using keys_map_set [of "generateKey e p" "new_entry d t now" "tl ?m"]
    by (metis (no_types, lifting) insert_absorb list.set_map set_append set_simps(1,2)
        subset_insertI Un_insert_right sup_bot.right_neutral order_refl)
  ultimately show ?thesis
    using full m generateKey_nonempty [of e p]
    unfolding mem_inv_def eq
    by (auto simp: distinct_map_set)
qed

lemma mem_inv_run_sets: "mem_inv c \<Longrightarrow> mem_inv (run_sets calls c)"
proof (induction calls arbitrary: c)
  case Nil
  then show ?case by simp
next
  case (Cons x xs)
  then show ?case by (cases x) (simp add: mem_inv_set)
qed

lemma mem_inv_new: "mem_inv new_APICache"
  by (simp add: mem_inv_def new_APICache_def)

subsection \<open>Filling the fast layer\<close>

lemma btoa_aaa: "btoa (CHR ''a'' # CHR ''a'' # CHR ''a'' # rest) = ''YWFh'' @ btoa rest"
  by (simp add: b64_def b64_alphabet_def)

lemma alnum_YWFh: "filter alnum (''YWFh'' @ s) = ''YWFh'' @ filter alnum s"
  by (simp add: alnum_def)

lemma fill_endpoint_Suc:
  "fill_endpoint (Suc i) = CHR ''a'' # CHR ''a'' # CHR ''a'' # fill_endpoint i"
  by (simp add: fill_endpoint_def)

lemma key_x: "generateKey ''x'' None = ''api_cache_eA''"
  by code_simp

lemma length_fill: "length (filter alnum (btoa (fill_endpoint i))) = 4 * i"
proof (induction i)
  case 0
  show ?case by (simp add: fill_endpoint_def)
next
  case (Suc i)
  have "filter alnum (btoa (fill_endpoint (Suc i))) =
          ''YWFh'' @ filter alnum (btoa (fill_endpoint i))"
    by (simp only: fill_endpoint_Suc btoa_aaa alnum_YWFh)
  then show ?case using Suc by simp
qed

lemma length_fill_key: "length (generateKey (fill_endpoint i) None) = 10 + 4 * i"
  using length_fill [of i] by (simp add: generateKey_def)

lemma fill_key_inj:
  assumes "generateKey (fill_endpoint i) None = generateKey (fill_endpoint j) None"
  shows "i = j"
proof -
  from assms have "length (generateKey (fill_endpoint i) None) =
                   length (generateKey (fill_endpoint j) None)"
    by (rule arg_cong)
  then have "10 + 4 * i = 10 + 4 * j" by (simp only: length_fill_key)
  then show ?thesis by arith
qed

lemma run_sets_append: "run_sets (xs @ ys) c = run_sets ys (run_sets xs c)"
  by (induction xs arbitrary: c) auto

lemma keys_fill:
  "n \<le> MAX_MEMORY_ITEMS \<Longrightarrow>
   map fst (memoryCache (run_sets (fill_calls n) new_APICache)) =
     map (\<lambda>i. generateKey (fill_endpoint i) None) [0..<n]"
proof (induction n)
  case 0
  show ?case by (simp add: fill_calls_def new_APICache_def)
next
  case (Suc n)
  let ?c = "run_sets (fill_calls n) new_APICache"
  let ?k = "\<lambda>i. generateKey (fill_endpoint i) None"
  from Suc have keys: "map fst (memoryCache ?c) = map ?k [0..<n]"
    by simp
  have "length (memoryCache ?c) = length (map fst (memoryCache ?c))" by simp
  also have "\<dots> = n" by (simp only: keys length_map length_upt)
  finally have len: "length (memoryCache ?c) = n" .
  with Suc.prems have room: "length (memoryCache ?c) < MAX_MEMORY_ITEMS" by simp
  have fresh: "?k n \<notin> fst ` set (memoryCache ?c)"
  proof
    assume "?k n \<in> fst ` set (memoryCache ?c)"
    then have "?k n \<in> set (map fst (memoryCache ?c))" by simp
    then have "?k n \<in> set (map ?k [0..<n])" by (simp only: keys)
    then obtain i where "i < n" and "?k n = ?k i" by auto
    then show False using fill_key_inj [of n i] by simp
  qed
  have step: "run_sets (fill_calls (Suc n)) new_APICache =
          APICache_set (fill_endpoint n) JNull None None 0 0 False ?c"
    by (simp add: fill_calls_def run_sets_append)
  have "map fst (memoryCache (APICache_set (fill_endpoint n) JNull None None 0 0 False ?c)) =
          map fst (memoryCache ?c) @ [?k n]"
    using fresh by (simp only: memoryCache_set_room [OF room] keys_map_set if_False)
  then show ?case by (simp only: step keys) simp
qed

subsection \<open>Claim C6\<close>

text \<open>
  C6. Starting from the empty store, after any sequence of \<^verbatim>\<open>set\<close> calls the
  fast layer holds at most \<open>MAX_MEMORY_ITEMS\<close> (100) entries; and when it holds
  exactly that many, the next \<^verbatim>\<open>set\<close> removes exactly one entry, the first in
  the map's insertion order (the key that entered the map earliest among those
  present, whatever was read or rewritten since), before it writes its own.
\<close>

theorem fast_layer_bounded_fifo:
  "length (memoryCache (run_sets calls new_APICache)) \<le> MAX_MEMORY_ITEMS \<and>
   (length (memoryCache (run_sets calls new_APICache)) = MAX_MEMORY_ITEMS \<longrightarrow>
      memoryCache (APICache_set e d p t now now_ls q (run_sets calls new_APICache)) =
        map_set (generateKey e p) (new_entry d t now)
          (tl (memoryCache (run_sets calls new_APICache))))"
proof -
  have inv: "mem_inv (run_sets calls new_APICache)"
    by (rule mem_inv_run_sets [OF mem_inv_new])
  show ?thesis
  proof (intro conjI impI)
    show "length (memoryCache (run_sets calls new_APICache)) \<le> MAX_MEMORY_ITEMS"
      using inv by (simp add: mem_inv_def)
  next
    assume "length (memoryCache (run_sets calls new_APICache)) = MAX_MEMORY_ITEMS"
    with inv show "memoryCache (APICache_set e d p t now now_ls q (run_sets calls new_APICache)) =
        map_set (generateKey e p) (new_entry d t now)
          (tl (memoryCache (run_sets calls new_APICache)))"
      by (intro memoryCache_set_full) (simp_all add: mem_inv_def)
  qed
qed

theorem fast_layer_bounded_fifo_witness:
  "length (memoryCache (run_sets (fill_calls 100) new_APICache)) = MAX_MEMORY_ITEMS \<and>
   map fst (memoryCache (APICache_set ''x'' JNull None None 0 0 False
              (run_sets (fill_calls 100) new_APICache))) =
     map (\<lambda>i. generateKey (fill_endpoint i) None) [Suc 0..<100] @ [generateKey ''x'' None]"
proof -
  let ?c = "run_sets (fill_calls 100) new_APICache"
  let ?k = "\<lambda>i. generateKey (fill_endpoint i) None"
  have keys: "map fst (memoryCache ?c) = map ?k [0..<100]"
    by (rule keys_fill) (simp add: MAX_MEMORY_ITEMS_def)
  have "length (memoryCache ?c) = length (map fst (memoryCache ?c))" by simp
  also have "\<dots> = 100" by (simp only: keys length_map length_upt)
  finally have full: "length (memoryCache ?c) = MAX_MEMORY_ITEMS"
    by (simp add: MAX_MEMORY_ITEMS_def)
  have "map fst (tl (memoryCache ?c)) = tl (map fst (memoryCache ?c))"
    by (simp only: map_tl)
  also have "\<dots> = map ?k (tl [0..<100])" by (simp only: keys map_tl)
  also have "\<dots> = map ?k [Suc 0..<100]" by (simp only: tl_upt)
  finally have tl_keys: "map fst (tl (memoryCache ?c)) = map ?k [Suc 0..<100]" .
  have fresh: "generateKey ''x'' None \<notin> fst ` set (tl (memoryCache ?c))"
  proof
    assume "generateKey ''x'' None \<in> fst ` set (tl (memoryCache ?c))"
    then have "generateKey ''x'' None \<in> set (map fst (tl (memoryCache ?c)))" by simp
    then have "generateKey ''x'' None \<in> set (map ?k [Suc 0..<100])" by (simp only: tl_keys)
    then obtain i where "generateKey ''x'' None = ?k i" by auto
    then have "length (generateKey ''x'' None) = length (?k i)" by (rule arg_cong)
    then have "12 = 10 + 4 * i" by (simp only: length_fill_key key_x) simp
    then show False by arith
  qed
  from fast_layer_bounded_fifo [of "fill_calls 100" "''x''" JNull None None 0 0 False] full
  have "memoryCache (APICache_set ''x'' JNull None None 0 0 False ?c) =
          map_set (generateKey ''x'' None) (new_entry JNull None 0) (tl (memoryCache ?c))"
    by blast
  then have "map fst (memoryCache (APICache_set ''x'' JNull None None 0 0 False ?c)) =
          map fst (tl (memoryCache ?c)) @ [generateKey ''x'' None]"
    using fresh by (simp only: keys_map_set if_False)
  then show ?thesis using full by (simp only: tl_keys)
qed

subsection \<open>Claim C10\<close>

lemma get_after_set_same_key:
  assumes "generateKey e' p' = generateKey e p" and "now' - now < ttl (new_entry d t now)"
  shows "fst (APICache_get e' p' now' now_ls' (APICache_set e d p t now now_ls q c)) = d"
proof -
  have "map_of (memoryCache (APICache_set e d p t now now_ls q c)) (generateKey e p) =
          Some (new_entry d t now)"
    by (simp add: APICache_set_def Let_def new_entry_def map_of_map_set)
  then show ?thesis
    using assms by (simp add: APICache_get_def Let_def isValidEntry_def new_entry_def)
qed

text \<open>
  C10. The key derivation is not injective. The endpoint and the serialized
  parameters are concatenated before encoding, so \<^verbatim>\<open>("users", {})\<close> and
  \<^verbatim>\<open>("users{}", undefined)\<close> derive one key; and the characters \<^verbatim>\<open>+\<close>, \<^verbatim>\<open>/\<close>
  and \<^verbatim>\<open>=\<close> of the base64 text are dropped, so the endpoints
  \<^verbatim>\<open>"\xFB\xEF\xBE"\<close> (base64 \<^verbatim>\<open>++++\<close>) and \<^verbatim>\<open>"\xFF\xFF\xFF"\<close> (base64
  \<^verbatim>\<open>////\<close>) derive one key. A value stored with one pair is returned by
  \<^verbatim>\<open>get\<close> with the other pair, in any store.
\<close>

theorem generateKey_not_injective:
  "(''users'', Some []) \<noteq> (''users{}'', (None :: params)) \<and>
   generateKey ''users'' (Some []) = generateKey ''users{}'' None \<and>
   [CHR 0xFB, CHR 0xEF, CHR 0xBE] \<noteq> [CHR 0xFF, CHR 0xFF, CHR 0xFF] \<and>
   generateKey [CHR 0xFB, CHR 0xEF, CHR 0xBE] None = generateKey [CHR 0xFF, CHR 0xFF, CHR 0xFF] None \<and>
   fst (APICache_get ''users{}'' None now now_ls'
          (APICache_set ''users'' d (Some []) (Some 1000) now now_ls q c)) = d"
proof -
  have k1: "generateKey ''users{}'' None = generateKey ''users'' (Some [])"
    by (simp add: generateKey_def)
  have k2: "generateKey [CHR 0xFB, CHR 0xEF, CHR 0xBE] None =
            generateKey [CHR 0xFF, CHR 0xFF, CHR 0xFF] None"
    by code_simp
  have "fst (APICache_get ''users{}'' None now now_ls'
          (APICache_set ''users'' d (Some []) (Some 1000) now now_ls q c)) = d"
    by (rule get_after_set_same_key [OF k1]) (simp add: new_entry_def)
  with k1 k2 show ?thesis by simp
qed

subsection \<open>Claim C4\<close>

lemma stringify_old: "JSON_stringify (JStr ''old'') = [CHR 0x22, CHR ''o'', CHR ''l'', CHR ''d'', CHR 0x22]"
  by (simp add: quote_def escape_char_def)

lemma stringify_new: "JSON_stringify (JStr ''new'') = [CHR 0x22, CHR ''n'', CHR ''e'', CHR ''w'', CHR 0x22]"
  by (simp add: quote_def escape_char_def)

lemma escape_a: "concat (map escape_char (replicate n CHR ''a'')) = replicate n CHR ''a''"
proof (induction n)
  case 0
  show ?case by simp
next
  case (Suc n)
  have "escape_char CHR ''a'' = [CHR ''a'']" by (simp add: escape_char_def)
  with Suc show ?case by simp
qed

lemma length_quote_a: "length (quote (replicate n CHR ''a'')) = n + 2"
proof -
  have "quote (replicate n CHR ''a'') = CHR 0x22 # replicate n CHR ''a'' @ [CHR 0x22]"
    by (simp only: quote_def escape_a)
  then show ?thesis by simp
qed

lemma big_value_too_long: "\<not> length (JSON_stringify big_value) < 100000"
proof -
  have "length (JSON_stringify big_value) = 100000 + 2"
    unfolding big_value_def JSON_stringify.simps by (rule length_quote_a)
  then show ?thesis by simp
qed

text \<open>
  C4 at a concrete input. \<^verbatim>\<open>set("users", "old", undefined, 1000)\<close> at time 0
  writes both layers. \<^verbatim>\<open>set("users", v, undefined, 10)\<close> at time 5, where \<open>v\<close>
  is a string of 100000 characters, replaces the fast-layer entry only: the
  value is too long for the slow layer, which keeps the entry of the first
  call. \<^verbatim>\<open>get("users")\<close> at time 5 returns \<open>v\<close>. At time 15 the time-to-live
  of the second write has elapsed, yet \<^verbatim>\<open>get\<close> returns the overwritten value
  \<^verbatim>\<open>"old"\<close> from the slow layer instead of \<^verbatim>\<open>null\<close>. With the short value
  \<^verbatim>\<open>"new"\<close> in place of \<open>v\<close> the second call rewrites the slow layer too, and
  \<^verbatim>\<open>get\<close> at time 15 returns \<^verbatim>\<open>null\<close>.
\<close>

theorem overwritten_value_returned_after_expiry:
  "fst (APICache_get ''users'' None 5 5
         (APICache_set ''users'' big_value None (Some 10) 5 5 False
           (APICache_set ''users'' (JStr ''old'') None (Some 1000) 0 0 False new_APICache)))
     = big_value \<and>
   fst (APICache_get ''users'' None 15 15
         (APICache_set ''users'' big_value None (Some 10) 5 5 False
           (APICache_set ''users'' (JStr ''old'') None (Some 1000) 0 0 False new_APICache)))
     = JStr ''old'' \<and>
   fst (APICache_get ''users'' None 15 15
         (APICache_set ''users'' (JStr ''new'') None (Some 10) 5 5 False
           (APICache_set ''users'' (JStr ''old'') None (Some 1000) 0 0 False new_APICache)))
     = JNull"
proof -
  have old: "length (JSON_stringify (JStr ''old'')) < 100000"
    by (simp only: stringify_old) simp
  have new: "length (JSON_stringify (JStr ''new'')) < 100000"
    by (simp only: stringify_new) simp
  have a: "fst (APICache_get ''users'' None 5 5
         (APICache_set ''users'' big_value None (Some 10) 5 5 False
           (APICache_set ''users'' (JStr ''old'') None (Some 1000) 0 0 False new_APICache)))
     = big_value"
    by (rule get_after_set_same_key) (simp_all add: new_entry_def)
  have b: "fst (APICache_get ''users'' None 15 15
         (APICache_set ''users'' big_value None (Some 10) 5 5 False
           (APICache_set ''users'' (JStr ''old'') None (Some 1000) 0 0 False new_APICache)))
     = JStr ''old''"
    using old big_value_too_long
    by (simp add: APICache_get_def APICache_set_def Let_def new_APICache_def
        isValidEntry_def MAX_MEMORY_ITEMS_def map_of_map_set)
  have c: "fst (APICache_get ''users'' None 15 15
         (APICache_set ''users'' (JStr ''new'') None (Some 10) 5 5 False
           (APICache_set ''users'' (JStr ''old'') None (Some 1000) 0 0 False new_APICache)))
     = JNull"
    using old new
    by (simp add: APICache_get_def APICache_set_def Let_def new_APICache_def
        isValidEntry_def MAX_MEMORY_ITEMS_def map_of_map_set)
  from a b c show ?thesis by simp
qed

subsection \<open>Claim C5\<close>

text \<open>
  C5 at a concrete input. \<^verbatim>\<open>set("users", "old", undefined, 10)\<close> at time 0 on
  the empty store, then \<^verbatim>\<open>get("users")\<close> at time 10, when the entry has
  expired: \<^verbatim>\<open>get\<close> returns \<^verbatim>\<open>null\<close> and removes the entry from the slow
  layer, but the fast layer still holds it afterwards.
\<close>

theorem expired_entry_stays_in_memory:
  "fst (APICache_get ''users'' None 10 10
         (APICache_set ''users'' (JStr ''old'') None (Some 10) 0 0 False new_APICache)) = JNull \<and>
   localStorage (APICache_set ''users'' (JStr ''old'') None (Some 10) 0 0 False new_APICache) =
     [(generateKey ''users'' None, Entry \<lparr>data = JStr ''old'', timestamp = 0, ttl = 10\<rparr>)] \<and>
   localStorage (snd (APICache_get ''users'' None 10 10
         (APICache_set ''users'' (JStr ''old'') None (Some 10) 0 0 False new_APICache))) = [] \<and>
   memoryCache (snd (APICache_get ''users'' None 10 10
         (APICache_set ''users'' (JStr ''old'') None (Some 10) 0 0 False new_APICache))) =
     [(generateKey ''users'' None, \<lparr>data = JStr ''old'', timestamp = 0, ttl = 10\<rparr>)]"
proof -
  have len: "length (JSON_stringify (JStr ''old'')) < 100000"
    by (simp only: stringify_old) simp
  show ?thesis
    using len
    by (simp add: APICache_get_def APICache_set_def Let_def new_APICache_def
        isValidEntry_def MAX_MEMORY_ITEMS_def map_delete_def)
qed

subsection \<open>Claim C7\<close>

lemma cacheable_truthy: "cacheable r \<Longrightarrow> truthy r"
  by (simp add: cacheable_def)

lemma cacheable_success: "cacheable r \<Longrightarrow> truthy_opt (property r ''success'')"
  by (simp add: cacheable_def)

lemma withCache_not_stored:
  assumes "fn (length (invocations s)) args = Inr r"
    and "\<not> truthy_opt (property r ''success'')"
  shows "apiCache (snd (withCache fn e t args now_get now_get_ls now_set now_set_ls q s)) =
           snd (APICache_get e (wc_params args) now_get now_get_ls (apiCache s))"
proof -
  from assms(2) have "\<not> cacheable r" using cacheable_success by blast
  with assms(1) show ?thesis
    by (simp add: withCache_def Let_def)
qed

lemma withCache_miss:
  assumes "\<not> truthy (fst (APICache_get e (wc_params args) now_get now_get_ls (apiCache s)))"
    and "fn (length (invocations s)) args = Inr r"
    and "cacheable r"
  shows "withCache fn e t args now_get now_get_ls now_set now_set_ls q s =
           (Inr r, \<lparr>apiCache = APICache_set e r (wc_params args) t now_set now_set_ls q
                                 (snd (APICache_get e (wc_params args) now_get now_get_ls (apiCache s))),
                    invocations = invocations s @ [args]\<rparr>)"
  using assms by (simp add: withCache_def Let_def)

lemma withCache_hit:
  assumes "fst (APICache_get e (wc_params args) now_get now_get_ls (apiCache s)) = r"
    and "snd (APICache_get e (wc_params args) now_get now_get_ls (apiCache s)) = apiCache s"
    and "truthy r"
  shows "withCache fn e t args now_get now_get_ls now_set now_set_ls q s = (Inr r, s)"
  using assms by (simp add: withCache_def Let_def)

lemma get_after_set_hit:
  assumes "now' - now < ttl (new_entry d t now)"
  shows "APICache_get e p now' now_ls' (APICache_set e d p t now now_ls q c) =
           (d, APICache_set e d p t now now_ls q c)"
proof -
  have "map_of (memoryCache (APICache_set e d p t now now_ls q c)) (generateKey e p) =
          Some (new_entry d t now)"
    by (simp add: APICache_set_def Let_def new_entry_def map_of_map_set)
  then show ?thesis
    using assms by (simp add: APICache_get_def Let_def isValidEntry_def new_entry_def)
qed

text \<open>
  C7. (1) When the wrapped operation resolves to a value whose \<^verbatim>\<open>success\<close>
  marker is absent or falsy, the store after the call is the store as the
  lookup left it: nothing is written. (2) When a call misses the cache and
  the wrapped operation resolves to a cacheable result \<open>r\<close>, the call returns
  \<open>r\<close> and the operation has been invoked once more, with exactly the
  caller's arguments; a second call with the same arguments before the
  time-to-live has elapsed returns \<open>r\<close> and leaves the state, and so the
  invocation log, as it was.
\<close>

theorem withCache_contract:
  "(fn (length (invocations s)) args = Inr r \<and> \<not> truthy_opt (property r ''success'') \<longrightarrow>
      apiCache (snd (withCache fn e t args now_get now_get_ls now_set now_set_ls q s)) =
        snd (APICache_get e (wc_params args) now_get now_get_ls (apiCache s))) \<and>
   (\<not> truthy (fst (APICache_get e' (wc_params args') get_a get_a_ls (apiCache s'))) \<and>
    fn' (length (invocations s')) args' = Inr r' \<and> cacheable r' \<and>
    get_b - set_a < ttl (new_entry r' t' set_a) \<longrightarrow>
      fst (withCache fn' e' t' args' get_a get_a_ls set_a set_a_ls qa s') = Inr r' \<and>
      invocations (snd (withCache fn' e' t' args' get_a get_a_ls set_a set_a_ls qa s')) =
        invocations s' @ [args'] \<and>
      withCache fn' e' t' args' get_b get_b_ls set_b set_b_ls qb
          (snd (withCache fn' e' t' args' get_a get_a_ls set_a set_a_ls qa s')) =
        (Inr r', snd (withCache fn' e' t' args' get_a get_a_ls set_a set_a_ls qa s')))"
proof (intro conjI impI)
  assume "fn (length (invocations s)) args = Inr r \<and> \<not> truthy_opt (property r ''success'')"
  then show "apiCache (snd (withCache fn e t args now_get now_get_ls now_set now_set_ls q s)) =
        snd (APICache_get e (wc_params args) now_get now_get_ls (apiCache s))"
    using withCache_not_stored [of fn s args r e t now_get now_get_ls now_set now_set_ls q] by blast
next
  assume h: "\<not> truthy (fst (APICache_get e' (wc_params args') get_a get_a_ls (apiCache s'))) \<and>
    fn' (length (invocations s')) args' = Inr r' \<and> cacheable r' \<and>
    get_b - set_a < ttl (new_entry r' t' set_a)"
  let ?c1 = "snd (APICache_get e' (wc_params args') get_a get_a_ls (apiCache s'))"
  let ?s1 = "\<lparr>apiCache = APICache_set e' r' (wc_params args') t' set_a set_a_ls qa ?c1,
              invocations = invocations s' @ [args']\<rparr>"
  from h have first: "withCache fn' e' t' args' get_a get_a_ls set_a set_a_ls qa s' = (Inr r', ?s1)"
    using withCache_miss [of e' args' get_a get_a_ls s' fn' r' t' set_a set_a_ls qa] by blast
  from h have hit: "APICache_get e' (wc_params args') get_b get_b_ls (apiCache ?s1) = (r', apiCache ?s1)"
    by (simp add: get_after_set_hit)
  from h have "truthy r'" by (simp add: cacheable_truthy)
  with hit have second: "withCache fn' e' t' args' get_b get_b_ls set_b set_b_ls qb ?s1 = (Inr r', ?s1)"
    using withCache_hit [of e' args' get_b get_b_ls ?s1 r' fn' t' set_b set_b_ls qb] by simp
  show "fst (withCache fn' e' t' args' get_a get_a_ls set_a set_a_ls qa s') = Inr r'"
    by (simp only: first fst_conv)
  show "invocations (snd (withCache fn' e' t' args' get_a get_a_ls set_a set_a_ls qa s')) =
        invocations s' @ [args']"
    by (simp only: first snd_conv) simp
  show "withCache fn' e' t' args' get_b get_b_ls set_b set_b_ls qb
          (snd (withCache fn' e' t' args' get_a get_a_ls set_a set_a_ls qa s')) =
        (Inr r', snd (withCache fn' e' t' args' get_a get_a_ls set_a set_a_ls qa s'))"
    by (simp only: first snd_conv second)
qed

theorem withCache_contract_witness:
  "apiCache (snd (withCache (\<lambda>n a. Inr (JObj [(''success'', JBool False)])) ''users'' None
                    [JNum 1] 0 0 1 1 False \<lparr>apiCache = new_APICache, invocations = []\<rparr>)) =
     new_APICache \<and>
   fst (withCache (\<lambda>n a. Inr (JObj [(''success'', JBool True)])) ''users'' None
          [JNum 1] 0 0 1 1 False \<lparr>apiCache = new_APICache, invocations = []\<rparr>) =
     Inr (JObj [(''success'', JBool True)]) \<and>
   invocations (snd (withCache (\<lambda>n a. Inr (JObj [(''success'', JBool True)])) ''users'' None
          [JNum 1] 0 0 1 1 False \<lparr>apiCache = new_APICache, invocations = []\<rparr>)) = [JNum 1] # [] \<and>
   withCache (\<lambda>n a. Inr (JObj [(''success'', JBool True)])) ''users'' None [JNum 1] 2 2 3 3 False
       (snd (withCache (\<lambda>n a. Inr (JObj [(''success'', JBool True)])) ''users'' None
          [JNum 1] 0 0 1 1 False \<lparr>apiCache = new_APICache, invocations = []\<rparr>)) =
     (Inr (JObj [(''success'', JBool True)]),
      snd (withCache (\<lambda>n a. Inr (JObj [(''success'', JBool True)])) ''users'' None
          [JNum 1] 0 0 1 1 False \<lparr>apiCache = new_APICache, invocations = []\<rparr>))"
proof -
  let ?s = "\<lparr>apiCache = new_APICache, invocations = []\<rparr>"
  have miss: "APICache_get ''users'' (wc_params [JNum 1]) 0 0 new_APICache = (JNull, new_APICache)"
    by (simp add: APICache_get_def new_APICache_def)
  have ok: "cacheable (JObj [(''success'', JBool True)])"
    by (simp add: cacheable_def)
  note inst = withCache_contract
      [where fn = "\<lambda>n a. Inr (JObj [(''success'', JBool False)])" and s = ?s
         and args = "[JNum 1]" and r = "JObj [(''success'', JBool False)]"
         and e = "''users''" and t = None and now_get = 0 and now_get_ls = 0
         and now_set = 1 and now_set_ls = 1 and q = False
         and fn' = "\<lambda>n a. Inr (JObj [(''success'', JBool True)])" and s' = ?s
         and args' = "[JNum 1]" and r' = "JObj [(''success'', JBool True)]"
         and e' = "''users''" and t' = None and get_a = 0 and get_a_ls = 0
         and set_a = 1 and set_a_ls = 1 and qa = False
         and get_b = 2 and get_b_ls = 2 and set_b = 3 and set_b_ls = 3 and qb = False]
  from inst miss ok show ?thesis
    by (simp add: new_entry_def DEFAULT_TTL_def)
qed

section \<open>Properties of the API client and the backend\<close>

lemma route_list: "route (getAllUsers_request page limit search) d =
    Some (get_api_users (getAllUsers_request page limit search) d)"
  by (simp add: route_def getAllUsers_request_def)

lemma route_get: "route (getUserById_request uid) d = Some (get_api_users_id uid d)"
  by (simp add: route_def getUserById_request_def)


lemma sorted_two_users: "findMany two_users = Inr [bob, ada]"
  by (simp add: findMany_def two_users_def ada_def bob_def)

lemma show_int_2: "show_int 2 = ''2''"
  by code_simp

lemma show_int_1: "show_int 1 = ''1''"
  by code_simp

subsection \<open>Claim C1\<close>

text \<open>
  C1 at a concrete input. The handler of \<^verbatim>\<open>GET /api/users\<close> gives the same
  answer for every request. For \<^verbatim>\<open>getAllUsers(2, 1, "zzz")\<close> against a
  database of two users, the request carries \<^verbatim>\<open>page=2\<close>, \<^verbatim>\<open>limit=1\<close> and
  \<^verbatim>\<open>search=zzz\<close>, and the \<^verbatim>\<open>data\<close> of the client's result is the bare array
  of both users: it has neither a \<^verbatim>\<open>data\<close> nor a \<^verbatim>\<open>pagination\<close> property.
\<close>

theorem list_endpoint_ignores_query:
  "get_api_users req d = get_api_users req' d \<and>
   req_query (getAllUsers_request 2 1 ''zzz'') =
     [(''page'', ''2''), (''limit'', ''1''), (''search'', ''zzz'')] \<and>
   getAllUsers (backend two_users) 2 1 ''zzz'' =
     \<lparr>response_data = JArr [user_json bob, user_json ada], success = True,
      message = JStr ''Operation completed successfully''\<rparr> \<and>
   property (response_data (getAllUsers (backend two_users) 2 1 ''zzz'')) ''data'' = None \<and>
   property (response_data (getAllUsers (backend two_users) 2 1 ''zzz'')) ''pagination'' = None"
proof -
  have a: "get_api_users req d = get_api_users req' d"
    by (simp add: get_api_users_def)
  have b: "req_query (getAllUsers_request 2 1 ''zzz'') =
     [(''page'', ''2''), (''limit'', ''1''), (''search'', ''zzz'')]"
    by (simp add: getAllUsers_request_def show_int_2 show_int_1 trim_def is_space_def)
  have c: "getAllUsers (backend two_users) 2 1 ''zzz'' =
     \<lparr>response_data = JArr [user_json bob, user_json ada], success = True,
      message = JStr ''Operation completed successfully''\<rparr>"
    by (simp add: getAllUsers_def backend_def route_list get_api_users_def sorted_two_users
        fetchWithErrorHandling_def send_json_def response_ok_def)
  from a b show ?thesis by (simp add: c)
qed

subsection \<open>Claim C2\<close>

lemma includes_not_found: "str_includes ''User not found'' ''404'' = False"
  by simp

text \<open>
  C2 at concrete inputs. For an id that the database does not hold, the
  backend answers 404 with \<^verbatim>\<open>{ error: 'User not found' }\<close>, and
  \<^verbatim>\<open>getUserById\<close> returns the placeholder \<^verbatim>\<open>{}\<close> as \<^verbatim>\<open>data\<close>, not \<^verbatim>\<open>null\<close>:
  the message that is searched for \<^verbatim>\<open>404\<close> is the server's text. And for an
  error response whose \<^verbatim>\<open>error\<close> is the number 5, \<^verbatim>\<open>getUserById\<close> rejects
  with a TypeError.
\<close>

theorem getUserById_404_not_null:
  "fst (get_api_users_id ''u9'' two_users) =
     \<lparr>status = 404, parsed_body = Inr (JObj [(''error'', JStr ''User not found'')])\<rparr> \<and>
   getUserById (backend two_users) ''u9'' =
     Inr \<lparr>response_data = JObj [], success = False, message = JStr ''User not found''\<rparr> \<and>
   getUserById (\<lambda>req. Responded \<lparr>status = 500, parsed_body = Inr (JObj [(''error'', JNum 5)])\<rparr>)
       ''u9'' =
     Inl (ErrorObj not_a_function_message)"
proof -
  have a: "get_api_users_id ''u9'' two_users =
     (\<lparr>status = 404, parsed_body = Inr (JObj [(''error'', JStr ''User not found'')])\<rparr>, two_users)"
    by (simp add: get_api_users_id_def findUnique_def two_users_def ada_def bob_def
        send_json_def error_json_def)
  have b: "getUserById (backend two_users) ''u9'' =
     Inr \<lparr>response_data = JObj [], success = False, message = JStr ''User not found''\<rparr>"
    by (simp add: getUserById_def backend_def route_get a fetchWithErrorHandling_def
        response_ok_def Let_def includes_not_found del: str_includes.simps)
  have c: "getUserById (\<lambda>req. Responded \<lparr>status = 500, parsed_body = Inr (JObj [(''error'', JNum 5)])\<rparr>)
       ''u9'' = Inl (ErrorObj not_a_function_message)"
    by (simp add: getUserById_def fetchWithErrorHandling_def response_ok_def Let_def)
  from a b c show ?thesis by simp
qed

subsection \<open>Claim C3\<close>
















subsection \<open>Claim C9\<close>

lemma finish_success:
  assumes "success r" and "response_data r \<noteq> JNull"
  shows "loadUsers_finish r a =
           a\<lparr>users := property (response_data r) ''data'',
             pagination := property (response_data r) ''pagination'', isLoading := False\<rparr>"
  using assms by (simp add: loadUsers_finish_def)

text \<open>
  C9, as the code has it. Page 2 is requested while the request for page 1
  is in flight; both responses are successful. Whatever the order of their
  arrival, the result set and the page descriptor shown in the end are those
  of the response that arrived last: those of page 2 when the response for
  page 1 arrived first, those of page 1 when it arrived second.
\<close>

theorem last_responder_wins:
  "success r1 \<and> response_data r1 \<noteq> JNull \<and> success r2 \<and> response_data r2 \<noteq> JNull \<longrightarrow>
     in_flight (run [Navigate 2] mounted) = [(1, []), (2, [])] \<and>
     users (app_state (run [Navigate 2, Arrive 0 r1, Arrive 0 r2] mounted)) =
       property (response_data r2) ''data'' \<and>
     pagination (app_state (run [Navigate 2, Arrive 0 r1, Arrive 0 r2] mounted)) =
       property (response_data r2) ''pagination'' \<and>
     users (app_state (run [Navigate 2, Arrive 1 r2, Arrive 0 r1] mounted)) =
       property (response_data r1) ''data'' \<and>
     pagination (app_state (run [Navigate 2, Arrive 1 r2, Arrive 0 r1] mounted)) =
       property (response_data r1) ''pagination'' \<and>
     currentPage (app_state (run [Navigate 2, Arrive 1 r2, Arrive 0 r1] mounted)) = 2"
proof
  assume "success r1 \<and> response_data r1 \<noteq> JNull \<and> success r2 \<and> response_data r2 \<noteq> JNull"
  then have f1: "\<And>a. loadUsers_finish r1 a =
           a\<lparr>users := property (response_data r1) ''data'',
             pagination := property (response_data r1) ''pagination'', isLoading := False\<rparr>"
    and f2: "\<And>a. loadUsers_finish r2 a =
           a\<lparr>users := property (response_data r2) ''data'',
             pagination := property (response_data r2) ''pagination'', isLoading := False\<rparr>"
    by (simp_all add: finish_success)
  have nav: "run [Navigate 2] mounted =
      \<lparr>app_state = loadUsers_start ((app_state mounted)\<lparr>currentPage := 2\<rparr>),
       in_flight = [(1, []), (2, [])]\<rparr>"
    by (simp add: mounted_def initial_AppState_def loadUsers_start_def)
  have first_then_second:
    "app_state (run [Navigate 2, Arrive 0 r1, Arrive 0 r2] mounted) =
       loadUsers_finish r2 (loadUsers_finish r1
         (loadUsers_start ((app_state mounted)\<lparr>currentPage := 2\<rparr>)))"
    using nav by simp
  have second_then_first:
    "app_state (run [Navigate 2, Arrive 1 r2, Arrive 0 r1] mounted) =
       loadUsers_finish r1 (loadUsers_finish r2
         (loadUsers_start ((app_state mounted)\<lparr>currentPage := 2\<rparr>)))"
    using nav by simp
  show "in_flight (run [Navigate 2] mounted) = [(1, []), (2, [])] \<and>
     users (app_state (run [Navigate 2, Arrive 0 r1, Arrive 0 r2] mounted)) =
       property (response_data r2) ''data'' \<and>
     pagination (app_state (run [Navigate 2, Arrive 0 r1, Arrive 0 r2] mounted)) =
       property (response_data r2) ''pagination'' \<and>
     users (app_state (run [Navigate 2, Arrive 1 r2, Arrive 0 r1] mounted)) =
       property (response_data r1) ''data'' \<and>
     pagination (app_state (run [Navigate 2, Arrive 1 r2, Arrive 0 r1] mounted)) =
       property (response_data r1) ''pagination'' \<and>
     currentPage (app_state (run [Navigate 2, Arrive 1 r2, Arrive 0 r1] mounted)) = 2"
    unfolding first_then_second second_then_first nav
    by (simp add: f1 f2 loadUsers_start_def)
qed

theorem last_responder_wins_witness:
  "users (app_state (run [Navigate 2, Arrive 0 (page_response [JStr ''Ada''] 1),
                          Arrive 0 (page_response [JStr ''Bob''] 2)] mounted)) =
     Some (JArr [JStr ''Bob'']) \<and>
   users (app_state (run [Navigate 2, Arrive 1 (page_response [JStr ''Bob''] 2),
                          Arrive 0 (page_response [JStr ''Ada''] 1)] mounted)) =
     Some (JArr [JStr ''Ada''])"
proof -
  let ?r1 = "page_response [JStr ''Ada''] 1" and ?r2 = "page_response [JStr ''Bob''] 2"
  have ok: "success ?r1 \<and> response_data ?r1 \<noteq> JNull \<and> success ?r2 \<and> response_data ?r2 \<noteq> JNull"
    by (simp add: page_response_def)
  have d: "property (response_data ?r1) ''data'' = Some (JArr [JStr ''Ada''])"
    "property (response_data ?r2) ''data'' = Some (JArr [JStr ''Bob''])"
    by (simp_all add: page_response_def)
  from last_responder_wins [of ?r1 ?r2] ok
  have "users (app_state (run [Navigate 2, Arrive 0 ?r1, Arrive 0 ?r2] mounted)) =
          property (response_data ?r2) ''data'' \<and>
        users (app_state (run [Navigate 2, Arrive 1 ?r2, Arrive 0 ?r1] mounted)) =
          property (response_data ?r1) ''data''"
    by blast
  then show ?thesis by (simp only: d)
qed

text \<open>
  C9 as stated fails. Page 1 holds Ada and page 2 holds Bob. Page 2 is
  requested while page 1 is in flight, the response for page 2 arrives
  first and the response for page 1 second: the list shown in the end is
  page 1, with the descriptor of page 1, while the current page is 2.
\<close>

theorem last_responder_wins_counterexample:
  "users (app_state (run [Navigate 2, Arrive 1 (page_response [JStr ''Bob''] 2),
                          Arrive 0 (page_response [JStr ''Ada''] 1)] mounted)) =
     property (response_data (page_response [JStr ''Ada''] 1)) ''data'' \<and>
   pagination (app_state (run [Navigate 2, Arrive 1 (page_response [JStr ''Bob''] 2),
                          Arrive 0 (page_response [JStr ''Ada''] 1)] mounted)) =
     Some (JObj [(''currentPage'', JNum 1)]) \<and>
   property (response_data (page_response [JStr ''Ada''] 1)) ''data'' \<noteq>
     property (response_data (page_response [JStr ''Bob''] 2)) ''data'' \<and>
   currentPage (app_state (run [Navigate 2, Arrive 1 (page_response [JStr ''Bob''] 2),
                          Arrive 0 (page_response [JStr ''Ada''] 1)] mounted)) = 2"
  by (simp add: mounted_def initial_AppState_def loadUsers_start_def loadUsers_finish_def
      page_response_def)

section \<open>Properties of the QR codec\<close>

subsection \<open>Reading back a quoted string\<close>

lemma hex_val_hex_digit: "d < 16 \<Longrightarrow> hex_val (hex_digit d) = Some d"
  by (auto simp: hex_val_def hex_digit_def Let_def of_char_of)

lemma char_eq_iff_code: "c = d \<longleftrightarrow> (of_char c :: nat) = of_char d"
  by auto

lemma parse_escape_char:
  "parse_chars Plain acc (escape_char c @ s) = parse_chars Plain (c # acc) s"
proof -
  define n where "n = (of_char c :: nat)"
  have c: "c = char_of n" by (simp add: n_def)
  have n256: "n < 256" by (simp add: n_def)
  consider (special) "n \<in> {34, 92, 8, 12, 10, 13, 9}"
    | (control) "n < 32" "n \<notin> {34, 92, 8, 12, 10, 13, 9}"
    | (plain) "32 \<le> n" "n \<notin> {34, 92, 8, 12, 10, 13, 9}"
    by fastforce
  then show ?thesis
  proof cases
    case special
    then consider "c = CHR 0x22" | "c = CHR 0x5C" | "c = CHR 0x08" | "c = CHR 0x0C"
      | "c = CHR 0x0A" | "c = CHR 0x0D" | "c = CHR 0x09"
      by (auto simp: char_eq_iff_code n_def [symmetric])
    then show ?thesis
      by cases (simp_all add: escape_char_def unescape_def)
  next
    case control
    have e: "escape_char c =
        [CHR 0x5C, CHR ''u'', CHR ''0'', CHR ''0'', hex_digit (n div 16), hex_digit (n mod 16)]"
      using control by (simp add: escape_char_def n_def [symmetric])
    have h1: "hex_val (hex_digit (n div 16)) = Some (n div 16)"
      using control by (intro hex_val_hex_digit) simp
    have h2: "hex_val (hex_digit (n mod 16)) = Some (n mod 16)"
      by (intro hex_val_hex_digit) simp
    have h0: "hex_val CHR ''0'' = Some 0" by (simp add: hex_val_def)
    have v: "n div 16 * 16 + n mod 16 = n" by simp
    show ?thesis
      using n256 by (simp add: e h0 h1 h2 v unescape_def c [symmetric])
  next
    case plain
    have e: "escape_char c = [c]"
      using plain by (simp add: escape_char_def n_def [symmetric])
    have "c \<noteq> CHR 0x22" "c \<noteq> CHR 0x5C"
      using plain by (auto simp: char_eq_iff_code n_def [symmetric])
    then show ?thesis
      using plain by (simp add: e n_def [symmetric])
  qed
qed

lemma parse_quoted_body:
  "parse_chars Plain acc (concat (map escape_char s) @ CHR 0x22 # r) = Some (rev acc @ s, r)"
proof (induction s arbitrary: acc)
  case Nil
  show ?case by simp
next
  case (Cons c s)
  have "parse_chars Plain acc (concat (map escape_char (c # s)) @ CHR 0x22 # r) =
        parse_chars Plain acc (escape_char c @ (concat (map escape_char s) @ CHR 0x22 # r))"
    by simp
  also have "\<dots> = parse_chars Plain (c # acc) (concat (map escape_char s) @ CHR 0x22 # r)"
    by (rule parse_escape_char)
  also have "\<dots> = Some (rev (c # acc) @ s, r)"
    by (rule Cons.IH)
  finally show ?case by simp
qed

lemma quote_Cons: "quote s @ r = CHR 0x22 # (concat (map escape_char s) @ CHR 0x22 # r)"
  by (simp add: quote_def)

lemma skip_ws_punct:
  "skip_ws (CHR 0x22 # r) = CHR 0x22 # r"
  "skip_ws (CHR '':'' # r) = CHR '':'' # r"
  "skip_ws (CHR '','' # r) = CHR '','' # r"
  "skip_ws (CHR ''{'' # r) = CHR ''{'' # r"
  "skip_ws (CHR ''}'' # r) = CHR ''}'' # r"
  "skip_ws [] = []"
  by (simp_all add: skip_ws_def is_ws_def)

lemma parse_value_string: "parse_value (Suc f) (quote s @ r) = Some (JStr s, r)"
  by (simp add: quote_Cons skip_ws_punct parse_quoted_body)

subsection \<open>Reading back the members of an object\<close>

lemma member_then_comma:
  assumes "parse_value f t = Some (v, CHR '','' # r)"
  shows "parse_members (Suc f) acc (quote k @ CHR '':'' # t) = parse_members f (map_set k v acc) r"
  using assms by (simp add: quote_Cons skip_ws_punct parse_quoted_body)

lemma member_then_close:
  assumes "parse_value f t = Some (v, CHR ''}'' # r)"
  shows "parse_members (Suc f) acc (quote k @ CHR '':'' # t) = Some (map_set k v acc, r)"
  using assms by (simp add: quote_Cons skip_ws_punct parse_quoted_body)

lemma string_member_then_comma:
  "parse_members (Suc (Suc f)) acc (quote k @ CHR '':'' # quote v @ CHR '','' # r) =
     parse_members (Suc f) (map_set k (JStr v) acc) r"
  by (rule member_then_comma) (rule parse_value_string)

lemma string_member_then_close:
  "parse_members (Suc (Suc f)) acc (quote k @ CHR '':'' # quote v @ CHR ''}'' # r) =
     Some (map_set k (JStr v) acc, r)"
  by (rule member_then_close) (rule parse_value_string)

lemma object_of_members:
  assumes "parse_members f [] (quote k @ t) = Some (kvs, r)"
  shows "parse_value (Suc f) (CHR ''{'' # quote k @ t) = Some (JObj kvs, r)"
  using assms by (simp add: skip_ws_punct) (simp add: quote_Cons skip_ws_punct)

subsection \<open>Reading back the payload of a profile\<close>

lemma stringify_qrData:
  "JSON_stringify (qrData u) @ r =
     CHR ''{'' # quote ''type'' @ CHR '':'' # quote ''user-profile'' @ CHR '','' #
       quote ''version'' @ CHR '':'' # quote ''1.0'' @ CHR '','' #
       quote ''data'' @ CHR '':'' # CHR ''{'' #
         quote ''fullName'' @ CHR '':'' # quote (fullName u) @ CHR '','' #
         quote ''email'' @ CHR '':'' # quote (email u) @ CHR '','' #
         quote ''phoneNumber'' @ CHR '':'' # quote (or_empty_str (phoneNumber u)) @ CHR '','' #
         quote ''bio'' @ CHR '':'' # quote (or_empty_str (bio u)) @ CHR '','' #
         quote ''avatarUrl'' @ CHR '':'' # quote (or_empty_str (avatarUrl u)) @ CHR '','' #
         quote ''dateOfBirth'' @ CHR '':'' # quote (date_part (dateOfBirth u)) @ CHR '','' #
         quote ''location'' @ CHR '':'' # quote (or_empty_str (location u)) @
       CHR ''}'' # CHR ''}'' # r"
  by (simp add: qrData_def)

lemma parse_profile_members:
  "parse_members (Suc (Suc (Suc (Suc (Suc (Suc (Suc (Suc h)))))))) []
     (quote ''fullName'' @ CHR '':'' # quote a @ CHR '','' #
      quote ''email'' @ CHR '':'' # quote b @ CHR '','' #
      quote ''phoneNumber'' @ CHR '':'' # quote c @ CHR '','' #
      quote ''bio'' @ CHR '':'' # quote d @ CHR '','' #
      quote ''avatarUrl'' @ CHR '':'' # quote e @ CHR '','' #
      quote ''dateOfBirth'' @ CHR '':'' # quote f @ CHR '','' #
      quote ''location'' @ CHR '':'' # quote g @ CHR ''}'' # r) =
   Some ([(''fullName'', JStr a), (''email'', JStr b), (''phoneNumber'', JStr c),
          (''bio'', JStr d), (''avatarUrl'', JStr e), (''dateOfBirth'', JStr f),
          (''location'', JStr g)], r)"
  by (simp only: string_member_then_comma string_member_then_close) simp

lemma parse_profile_object:
  "parse_value (Suc (Suc (Suc (Suc (Suc (Suc (Suc (Suc (Suc h)))))))))
     (CHR ''{'' # quote ''fullName'' @ CHR '':'' # quote a @ CHR '','' #
      quote ''email'' @ CHR '':'' # quote b @ CHR '','' #
      quote ''phoneNumber'' @ CHR '':'' # quote c @ CHR '','' #
      quote ''bio'' @ CHR '':'' # quote d @ CHR '','' #
      quote ''avatarUrl'' @ CHR '':'' # quote e @ CHR '','' #
      quote ''dateOfBirth'' @ CHR '':'' # quote f @ CHR '','' #
      quote ''location'' @ CHR '':'' # quote g @ CHR ''}'' # r) =
   Some (JObj [(''fullName'', JStr a), (''email'', JStr b), (''phoneNumber'', JStr c),
               (''bio'', JStr d), (''avatarUrl'', JStr e), (''dateOfBirth'', JStr f),
               (''location'', JStr g)], r)"
  by (rule object_of_members) (rule parse_profile_members)

lemma parse_value_qrData:
  "parse_value (Suc (Suc (Suc (Suc (Suc (Suc (Suc (Suc (Suc (Suc (Suc (Suc (Suc h)))))))))))))
     (JSON_stringify (qrData u) @ r) = Some (qrData u, r)"
proof -
  let ?inner = "JObj [(''fullName'', JStr (fullName u)), (''email'', JStr (email u)),
      (''phoneNumber'', JStr (or_empty_str (phoneNumber u))),
      (''bio'', JStr (or_empty_str (bio u))),
      (''avatarUrl'', JStr (or_empty_str (avatarUrl u))),
      (''dateOfBirth'', JStr (date_part (dateOfBirth u))),
      (''location'', JStr (or_empty_str (location u)))]"
  have members: "parse_members
      (Suc (Suc (Suc (Suc (Suc (Suc (Suc (Suc (Suc (Suc (Suc (Suc h)))))))))))) []
      (quote ''type'' @ CHR '':'' # quote ''user-profile'' @ CHR '','' #
       quote ''version'' @ CHR '':'' # quote ''1.0'' @ CHR '','' #
       quote ''data'' @ CHR '':'' # CHR ''{'' #
         quote ''fullName'' @ CHR '':'' # quote (fullName u) @ CHR '','' #
         quote ''email'' @ CHR '':'' # quote (email u) @ CHR '','' #
         quote ''phoneNumber'' @ CHR '':'' # quote (or_empty_str (phoneNumber u)) @ CHR '','' #
         quote ''bio'' @ CHR '':'' # quote (or_empty_str (bio u)) @ CHR '','' #
         quote ''avatarUrl'' @ CHR '':'' # quote (or_empty_str (avatarUrl u)) @ CHR '','' #
         quote ''dateOfBirth'' @ CHR '':'' # quote (date_part (dateOfBirth u)) @ CHR '','' #
         quote ''location'' @ CHR '':'' # quote (or_empty_str (location u)) @
       CHR ''}'' # CHR ''}'' # r) =
     Some ([(''type'', JStr ''user-profile''), (''version'', JStr ''1.0''), (''data'', ?inner)], r)"
    by (simp only: string_member_then_comma member_then_close [OF parse_profile_object]) simp
  show ?thesis
    unfolding stringify_qrData
    by (simp only: object_of_members [OF members]) (simp add: qrData_def)
qed

lemma length_stringify_qrData: "12 \<le> length (JSON_stringify (qrData u))"
proof -
  have "12 \<le> length (JSON_stringify (qrData u) @ [])"
    by (simp only: stringify_qrData) simp
  then show ?thesis by simp
qed

lemma JSON_parse_qrData: "JSON_parse (JSON_stringify (qrData u)) = Some (qrData u)"
proof -
  obtain h where "length (JSON_stringify (qrData u)) = 12 + h"
    using length_stringify_qrData [of u] le_Suc_ex by blast
  then have fuel: "Suc (length (JSON_stringify (qrData u))) =
      Suc (Suc (Suc (Suc (Suc (Suc (Suc (Suc (Suc (Suc (Suc (Suc (Suc h))))))))))))"
    by simp
  have "parse_value (Suc (length (JSON_stringify (qrData u)))) (JSON_stringify (qrData u) @ []) =
          Some (qrData u, [])"
    unfolding fuel by (rule parse_value_qrData)
  then show ?thesis by (simp add: JSON_parse_def skip_ws_punct)
qed

subsection \<open>Claim C8\<close>

lemma decode_encode:
  assumes "fullName u \<noteq> []" and "email u \<noteq> []"
  shows "handleScanResult (JSON_stringify (qrData u)) =
           Inr (JObj [(''fullName'', JStr (fullName u)), (''email'', JStr (email u)),
                      (''phoneNumber'', JStr (or_empty_str (phoneNumber u))),
                      (''bio'', JStr (or_empty_str (bio u))),
                      (''avatarUrl'', JStr (or_empty_str (avatarUrl u))),
                      (''dateOfBirth'', JStr (date_part (dateOfBirth u))),
                      (''location'', JStr (or_empty_str (location u)))])"
  unfolding handleScanResult_def JSON_parse_qrData
  using assms by (simp add: qrData_def Let_def)

lemma decode_wrong_tag:
  assumes "JSON_parse s = Some pd" and "property pd ''type'' \<noteq> Some (JStr ''user-profile'')"
  shows "handleScanResult s = Inl scan_error"
  using assms by (simp add: handleScanResult_def)

lemma decode_no_email:
  assumes "JSON_parse s = Some pd" and "property pd ''data'' = Some d"
    and "property d ''email'' = None \<or> property d ''email'' = Some JNull
         \<or> property d ''email'' = Some (JStr [])"
  shows "handleScanResult s = Inl scan_error"
proof -
  from assms(3) have "\<not> truthy (or_empty (property d ''email''))" by auto
  with assms(1,2) show ?thesis by (simp add: handleScanResult_def Let_def)
qed

text \<open>
  C8. (1) For a profile with a non-empty full name and a non-empty email
  whose optional fields are all absent or empty, \<^verbatim>\<open>generateQRCode\<close> produces
  a payload text, and \<^verbatim>\<open>handleScanResult\<close> on that text (it parses the text
  and validates the envelope) gives the full name and the email of the
  profile and the empty string in every other field. (2) Decoding fails for
  every text that parses to a payload whose \<^verbatim>\<open>type\<close> is not the string
  \<^verbatim>\<open>user-profile\<close>. (3) Decoding fails for every text that parses to a
  payload whose \<^verbatim>\<open>data\<close> has no email, a \<^verbatim>\<open>null\<close> email or the empty string
  as email, whatever its full name.
\<close>

theorem qr_round_trip:
  "(fullName u \<noteq> [] \<and> email u \<noteq> [] \<and>
    phoneNumber u \<in> {None, Some []} \<and> bio u \<in> {None, Some []} \<and>
    avatarUrl u \<in> {None, Some []} \<and> dateOfBirth u \<in> {None, Some []} \<and>
    location u \<in> {None, Some []} \<longrightarrow>
      map_option handleScanResult (generateQRCode (Some u)) =
        Some (Inr (JObj [(''fullName'', JStr (fullName u)), (''email'', JStr (email u)),
                   (''phoneNumber'', JStr []), (''bio'', JStr []), (''avatarUrl'', JStr []),
                   (''dateOfBirth'', JStr []), (''location'', JStr [])]))) \<and>
   (JSON_parse s = Some pd \<and> property pd ''type'' \<noteq> Some (JStr ''user-profile'') \<longrightarrow>
      handleScanResult s = Inl scan_error) \<and>
   (JSON_parse s' = Some pd' \<and> property pd' ''data'' = Some d \<and>
    (property d ''email'' = None \<or> property d ''email'' = Some JNull
       \<or> property d ''email'' = Some (JStr [])) \<longrightarrow>
      handleScanResult s' = Inl scan_error)"
proof (intro conjI impI)
  assume h: "fullName u \<noteq> [] \<and> email u \<noteq> [] \<and>
    phoneNumber u \<in> {None, Some []} \<and> bio u \<in> {None, Some []} \<and>
    avatarUrl u \<in> {None, Some []} \<and> dateOfBirth u \<in> {None, Some []} \<and>
    location u \<in> {None, Some []}"
  then have empty: "or_empty_str (phoneNumber u) = []" "or_empty_str (bio u) = []"
    "or_empty_str (avatarUrl u) = []" "date_part (dateOfBirth u) = []"
    "or_empty_str (location u) = []"
    by (auto simp: or_empty_str_def date_part_def)
  from h have "handleScanResult (JSON_stringify (qrData u)) =
           Inr (JObj [(''fullName'', JStr (fullName u)), (''email'', JStr (email u)),
                      (''phoneNumber'', JStr (or_empty_str (phoneNumber u))),
                      (''bio'', JStr (or_empty_str (bio u))),
                      (''avatarUrl'', JStr (or_empty_str (avatarUrl u))),
                      (''dateOfBirth'', JStr (date_part (dateOfBirth u))),
                      (''location'', JStr (or_empty_str (location u)))])"
    using decode_encode [of u] by blast
  then show "map_option handleScanResult (generateQRCode (Some u)) =
        Some (Inr (JObj [(''fullName'', JStr (fullName u)), (''email'', JStr (email u)),
                   (''phoneNumber'', JStr []), (''bio'', JStr []), (''avatarUrl'', JStr []),
                   (''dateOfBirth'', JStr []), (''location'', JStr [])]))"
    by (simp add: generateQRCode_def empty)
next
  assume "JSON_parse s = Some pd \<and> property pd ''type'' \<noteq> Some (JStr ''user-profile'')"
  then show "handleScanResult s = Inl scan_error"
    using decode_wrong_tag [of s pd] by blast
next
  assume "JSON_parse s' = Some pd' \<and> property pd' ''data'' = Some d \<and>
    (property d ''email'' = None \<or> property d ''email'' = Some JNull
       \<or> property d ''email'' = Some (JStr []))"
  then show "handleScanResult s' = Inl scan_error"
    using decode_no_email [of s' pd' d] by blast
qed

lemma parse_contact_text:
  "JSON_parse contact_text =
     Some (JObj [(''type'', JStr ''contact''),
       (''data'', JObj [(''fullName'', JStr ''Ada''), (''email'', JStr ''ada@example.org'')])])"
  by code_simp

lemma parse_no_email_text:
  "JSON_parse no_email_text =
     Some (JObj [(''type'', JStr ''user-profile''),
       (''data'', JObj [(''fullName'', JStr ''Ada'')])])"
  by code_simp

theorem qr_round_trip_witness:
  "map_option handleScanResult (generateQRCode (Some ada)) =
     Some (Inr (JObj [(''fullName'', JStr ''Ada''), (''email'', JStr ''ada@example.org''),
                (''phoneNumber'', JStr []), (''bio'', JStr []), (''avatarUrl'', JStr []),
                (''dateOfBirth'', JStr []), (''location'', JStr [])])) \<and>
   handleScanResult contact_text = Inl scan_error \<and>
   handleScanResult no_email_text = Inl scan_error"
  using qr_round_trip [of ada contact_text
      "JObj [(''type'', JStr ''contact''),
             (''data'', JObj [(''fullName'', JStr ''Ada''), (''email'', JStr ''ada@example.org'')])]"
      no_email_text
      "JObj [(''type'', JStr ''user-profile''), (''data'', JObj [(''fullName'', JStr ''Ada'')])]"
      "JObj [(''fullName'', JStr ''Ada'')]"]
    parse_contact_text parse_no_email_text
  by (simp add: ada_def)

end
